theory Spec2Isabelle
  imports
    Main
    "HOL-Library.Word"
    "HOL-Library.AList_Mapping"
    "HOL-Library.Char_ord"
    "HOL-Library.List_Lexorder"
begin

section \<open>Values, errors and the formatter bridge\<close>

text \<open>
  Go's \<^verbatim>\<open>interface{}\<close> arguments and map values. \<open>VNil\<close> is the nil interface, which is
  also what a Go map lookup yields for a missing key.
\<close>

datatype val = VNil | VInt int | VStr string | VBool bool

text \<open>
  The errors the modelled code creates or passes on. \<open>ErrNilDeref\<close> stands for the run-time
  panic of a nil pointer dereference, \<open>ErrExternal\<close> for an error reported by a collaborator
  outside the sources (driver, schema layer, relation loader).
\<close>

datatype error =
    ErrNoJoins
  | ErrMapSliceEmpty
  | ErrModelNil
  | ErrNotSupported
  | ErrNilDeref
  | ErrExternal string

text \<open>
  \<^verbatim>\<open>sqlfmt.QueryFormatter\<close>: the placeholder ("Nop") formatter and the literal formatter of a
  dialect. The dialect's way of writing a value as a quoted literal is the argument of
  \<open>Formatter\<close>.
\<close>

datatype fmter = NopFormatter | Formatter "val \<Rightarrow> string"

definition IsNopFormatter :: "fmter \<Rightarrow> bool" where
  "IsNopFormatter fmter = (case fmter of NopFormatter \<Rightarrow> True | Formatter _ \<Rightarrow> False)"

text \<open>
  Modelled from the spec: \<^verbatim>\<open>sqlfmt.Append\<close> is not in the sources. Section 4.2: in literal mode
  "each argument is converted to a dialect-quoted literal", in placeholder mode "each argument
  position is replaced with a generic placeholder token (?) rather than a value".
\<close>

definition Append :: "fmter \<Rightarrow> string \<Rightarrow> val \<Rightarrow> string" where
  "Append fmter b v = (case fmter of NopFormatter \<Rightarrow> b @ ''?'' | Formatter lit \<Rightarrow> b @ lit v)"

text \<open>
  Modelled from the spec: \<^verbatim>\<open>sqlfmt.AppendIdent\<close> is not in the sources. Section 3: an
  identifier node is "a caller-supplied string rendered verbatim, e.g. a table or column name -
  never escaped as a value".
\<close>

definition AppendIdent :: "fmter \<Rightarrow> string \<Rightarrow> string \<Rightarrow> string" where
  "AppendIdent fmter b ident = b @ ident"

text \<open>
  Modelled from the spec: \<^verbatim>\<open>sqlfmt.AppendString\<close> is not in the sources; it writes the string
  form of the "dialect-quoted literal" of section 4.2: single quotes around the text, a quote
  inside the text doubled.
\<close>

fun quote_chars :: "string \<Rightarrow> string" where
  "quote_chars [] = []"
| "quote_chars (c # cs) =
     (if c = CHR 0x27 then CHR 0x27 # CHR 0x27 # quote_chars cs else c # quote_chars cs)"

text \<open>
  Modelled from the spec: \<^verbatim>\<open>sqlfmt.AppendString\<close>, the quoted string literal of section 4.2
  (see \<open>quote_chars\<close>).
\<close>

definition AppendString :: "string \<Rightarrow> string \<Rightarrow> string" where
  "AppendString b s = b @ [CHR 0x27] @ quote_chars s @ [CHR 0x27]"

text \<open>
  Modelled from the spec: \<^verbatim>\<open>QueryFormatter.FormatQuery\<close> is not in the sources. The template is
  copied byte by byte; each \<open>?\<close> is an argument position and takes the next positional argument,
  written as \<open>Append\<close> writes it. A \<open>?\<close> with no argument left is copied as it is. Named
  references (\<open>?Columns\<close> and the like) are not expanded by this model.
\<close>

fun format_args :: "fmter \<Rightarrow> string \<Rightarrow> val list \<Rightarrow> string" where
  "format_args fmter [] args = []"
| "format_args fmter (c # cs) args =
     (if c = CHR ''?''
      then (case args of
              [] \<Rightarrow> c # format_args fmter cs []
            | a # as \<Rightarrow> Append fmter [] a @ format_args fmter cs as)
      else c # format_args fmter cs args)"

text \<open>
  Modelled from the spec: \<^verbatim>\<open>FormatQuery\<close> appends the formatted template to the buffer
  (section 4.2; see \<open>format_args\<close>).
\<close>

definition FormatQuery :: "fmter \<Rightarrow> string \<Rightarrow> string \<Rightarrow> val list \<Rightarrow> string" where
  "FormatQuery fmter b query args = b @ format_args fmter query args"

text \<open>
  \<^verbatim>\<open>sqlfmt.QueryWithArgs\<close>: a template with its arguments. \<open>Args = None\<close> is the nil slice,
  which marks an identifier node (\<^verbatim>\<open>col.Args == nil\<close> in \<^verbatim>\<open>SelectQuery.appendColumns\<close>).
\<close>

record QueryWithArgs =
  Query :: string
  Args :: "val list option"

record QueryWithSep = QueryWithArgs +
  Sep :: string

text \<open>
  Modelled from the spec: the constructors and methods of \<^verbatim>\<open>QueryWithArgs\<close> are not in the
  sources. Section 3: a QueryNode is "either a safe node (raw SQL template string + positional
  arguments, with a separator used when concatenated with siblings) or an unsafe-identifier node".
\<close>

definition SafeQuery :: "string \<Rightarrow> val list \<Rightarrow> QueryWithArgs" where
  "SafeQuery query args = \<lparr>Query = query, Args = Some args\<rparr>"

text \<open>
  Modelled from the spec: \<^verbatim>\<open>sqlfmt.UnsafeIdent\<close>, the "unsafe-identifier node" of section 3; it
  has no arguments.
\<close>

definition UnsafeIdent :: "string \<Rightarrow> QueryWithArgs" where
  "UnsafeIdent ident = \<lparr>Query = ident, Args = None\<rparr>"

text \<open>
  Modelled from the spec: \<^verbatim>\<open>sqlfmt.SafeQueryWithSep\<close>, the safe node of section 3 "with a
  separator used when concatenated with siblings".
\<close>

definition SafeQueryWithSep :: "string \<Rightarrow> val list \<Rightarrow> string \<Rightarrow> QueryWithSep" where
  "SafeQueryWithSep query args sep = \<lparr>Query = query, Args = Some args, Sep = sep\<rparr>"

text \<open>
  Modelled from the spec: \<^verbatim>\<open>QueryWithArgs.IsZero\<close> is not in the sources; a node is zero when
  it is the zero value of its type, with no template and no arguments (section 3).
\<close>

definition IsZero :: "'a QueryWithArgs_scheme \<Rightarrow> bool" where
  "IsZero q = (Query q = [] \<and> Args q = None)"

text \<open>
  Modelled from the spec: \<^verbatim>\<open>QueryWithArgs.AppendQuery\<close> is not in the sources. Section 3:
  "identifier nodes never pass through value-escaping; argument nodes always do": an
  identifier node is written by \<open>AppendIdent\<close>, a safe node by \<open>FormatQuery\<close>.
\<close>

definition AppendQuery_node :: "fmter \<Rightarrow> string \<Rightarrow> 'a QueryWithArgs_scheme \<Rightarrow> error + string" where
  "AppendQuery_node fmter b q =
     (case Args q of
        None \<Rightarrow> Inr (AppendIdent fmter b (Query q))
      | Some args \<Rightarrow> Inr (FormatQuery fmter b (Query q) args))"

text \<open>\<^verbatim>\<open>strconv.AppendInt(b, i, 10)\<close>: the decimal digits of \<open>i\<close>, with a minus sign when negative.\<close>

fun nat_digits :: "nat \<Rightarrow> string" where
  "nat_digits n =
     (if n < 10 then [''0123456789'' ! n]
      else nat_digits (n div 10) @ [''0123456789'' ! (n mod 10)])"

declare nat_digits.simps [simp del]

definition AppendInt :: "string \<Rightarrow> int \<Rightarrow> string" where
  "AppendInt b i = b @ (if i < 0 then CHR ''-'' # nat_digits (nat (- i)) else nat_digits (nat i))"

text \<open>\<^verbatim>\<open>strings.Join\<close>, used to state what the rendering loops produce.\<close>

fun join_sep :: "string \<Rightarrow> string list \<Rightarrow> string" where
  "join_sep sep [] = []"
| "join_sep sep [x] = x"
| "join_sep sep (x # y # ys) = x @ sep @ join_sep sep (y # ys)"


section \<open>model\_map\_slice.go: the dynamic-row model\<close>

text \<open>
  \<^verbatim>\<open>mapSliceModel\<close>: \<open>slicePtr\<close> is the slice of maps the model points to, \<open>keys\<close> the cached
  column list (\<open>None\<close> is the nil slice), \<open>db_ValuesRow\<close> the value of
  \<^verbatim>\<open>m.db.features.Has(feature.ValuesRow)\<close>.
\<close>

record mapSliceModel =
  db_ValuesRow :: bool
  slicePtr :: "(string, val) mapping list"
  keys :: "string list option"

definition newMapSliceModel :: "bool \<Rightarrow> (string, val) mapping list \<Rightarrow> mapSliceModel" where
  "newMapSliceModel db ptr = \<lparr>db_ValuesRow = db, slicePtr = ptr, keys = None\<rparr>"

text \<open>
  \<^verbatim>\<open>initKeys\<close>: the keys of \<^verbatim>\<open>slice[0]\<close>, collected in Go's map order and sorted by
  \<^verbatim>\<open>sort.Strings\<close>, that is the sorted list of the key set. The updated model is returned.
\<close>

definition initKeys :: "mapSliceModel \<Rightarrow> error + mapSliceModel" where
  "initKeys m =
     (case keys m of
        Some _ \<Rightarrow> Inr m
      | None \<Rightarrow>
          (case slicePtr m of
             [] \<Rightarrow> Inl ErrMapSliceEmpty
           | first # _ \<Rightarrow> Inr (m\<lparr>keys := Some (Mapping.ordered_keys first)\<rparr>)))"

text \<open>The loop \<^verbatim>\<open>for i, k := range m.keys\<close> of \<^verbatim>\<open>appendColumns\<close>, from index \<open>i\<close> on.\<close>

fun appendKeyIdents :: "fmter \<Rightarrow> string \<Rightarrow> nat \<Rightarrow> string list \<Rightarrow> string" where
  "appendKeyIdents fmter b i [] = b"
| "appendKeyIdents fmter b i (k # ks) =
     appendKeyIdents fmter (AppendIdent fmter (if i > 0 then b @ '', '' else b) k) (Suc i) ks"

definition appendColumns_mapSlice ::
    "fmter \<Rightarrow> string \<Rightarrow> mapSliceModel \<Rightarrow> error + (string \<times> mapSliceModel)" where
  "appendColumns_mapSlice fmter b m =
     (case initKeys m of
        Inl e \<Rightarrow> Inl e
      | Inr m' \<Rightarrow> Inr (appendKeyIdents fmter b 0 (case keys m' of None \<Rightarrow> [] | Some ks \<Rightarrow> ks), m'))"

text \<open>The loop \<^verbatim>\<open>for i := range m.keys\<close> of the placeholder branch of \<^verbatim>\<open>appendValues\<close>.\<close>

fun appendKeyMarks :: "string \<Rightarrow> nat \<Rightarrow> string list \<Rightarrow> string" where
  "appendKeyMarks b i [] = b"
| "appendKeyMarks b i (k # ks) =
     appendKeyMarks ((if i > 0 then b @ '', '' else b) @ ''?'') (Suc i) ks"

text \<open>\<^verbatim>\<open>el[key]\<close>: a missing key reads as nil.\<close>

definition map_index :: "(string, val) mapping \<Rightarrow> string \<Rightarrow> val" where
  "map_index el key = (case Mapping.lookup el key of None \<Rightarrow> VNil | Some v \<Rightarrow> v)"

text \<open>The inner loop \<^verbatim>\<open>for j, key := range m.keys\<close> over one row.\<close>

fun appendRowValues ::
    "fmter \<Rightarrow> string \<Rightarrow> (string, val) mapping \<Rightarrow> nat \<Rightarrow> string list \<Rightarrow> string" where
  "appendRowValues fmter b el j [] = b"
| "appendRowValues fmter b el j (key # ks) =
     appendRowValues fmter (Append fmter (if j > 0 then b @ '', '' else b) (map_index el key))
       el (Suc j) ks"

definition openRow :: "bool \<Rightarrow> string" where
  "openRow valuesRow = (if valuesRow then ''ROW('' else ''('')"

text \<open>The outer loop \<^verbatim>\<open>for i, el := range slice\<close>.\<close>

fun appendRows ::
    "fmter \<Rightarrow> bool \<Rightarrow> string list \<Rightarrow> string \<Rightarrow> nat \<Rightarrow> (string, val) mapping list \<Rightarrow> string"
where
  "appendRows fmter vr ks b i [] = b"
| "appendRows fmter vr ks b i (el # els) =
     appendRows fmter vr ks
       (appendRowValues fmter (if i > 0 then b @ ''), '' @ openRow vr else b) el 0 ks)
       (Suc i) els"

definition appendValues_mapSlice ::
    "fmter \<Rightarrow> string \<Rightarrow> mapSliceModel \<Rightarrow> error + (string \<times> mapSliceModel)" where
  "appendValues_mapSlice fmter b m =
     (case initKeys m of
        Inl e \<Rightarrow> Inl e
      | Inr m' \<Rightarrow>
          (let slice = slicePtr m';
               ks = (case keys m' of None \<Rightarrow> [] | Some ks \<Rightarrow> ks);
               b1 = b @ ''VALUES '' @ openRow (db_ValuesRow m')
           in if IsNopFormatter fmter
              then Inr (appendKeyMarks b1 0 ks, m')
              else Inr (appendRows fmter (db_ValuesRow m') ks b1 0 slice @ '')'', m')))"


text \<open>
  The claim's words for the column source, to compare with \<open>initKeys\<close>: "the first non-empty
  row" of the slice.
\<close>

definition nonEmptyRow :: "(string, val) mapping \<Rightarrow> bool" where
  "nonEmptyRow r = (Mapping.keys r \<noteq> {})"

definition firstNonEmptyRow :: "(string, val) mapping list \<Rightarrow> (string, val) mapping option" where
  "firstNonEmptyRow rows = List.find nonEmptyRow rows"

text \<open>
  A literal writer to evaluate examples with: integers in decimal, strings quoted, nil as NULL.
\<close>

definition sample_lit :: "val \<Rightarrow> string" where
  "sample_lit v =
     (case v of
        VNil \<Rightarrow> ''NULL''
      | VInt i \<Rightarrow> AppendInt [] i
      | VStr s \<Rightarrow> AppendString [] s
      | VBool t \<Rightarrow> (if t then ''TRUE'' else ''FALSE''))"


section \<open>model\_map\_slice.go, second part: the values query\<close>

text \<open>
  Modelled from the spec: \<^verbatim>\<open>schema.Field\<close> is not in the sources. Section 6: the schema
  registry returns an "ordered field list (name, SQL name, declared SQL type/cast,
  value-accessor)". A struct value is read through the accessor by field name.
\<close>

record Field =
  Name :: string
  SQLName :: string
  UserSQLType :: string

type_synonym strct = "string \<Rightarrow> val"

text \<open>
  Modelled from the spec: \<^verbatim>\<open>Field.AppendValue\<close> is not in the sources. Section 6 gives a field
  a "value-accessor"; the value it reads is written as \<open>Append\<close> writes a value.
\<close>

definition AppendValue :: "Field \<Rightarrow> fmter \<Rightarrow> string \<Rightarrow> strct \<Rightarrow> string" where
  "AppendValue f fmter b v = Append fmter b (v (Name f))"

text \<open>
  Modelled from the spec: the package function \<^verbatim>\<open>appendColumns(b, table, fields)\<close> is not in
  the sources. Section 4.2: "the full column list of the current model"; each field's SQL name,
  prefixed by the table alias and a dot when an alias is given, separated by a comma and a space.
\<close>

fun appendColumns :: "string \<Rightarrow> string \<Rightarrow> nat \<Rightarrow> Field list \<Rightarrow> string" where
  "appendColumns b table i [] = b"
| "appendColumns b table i (f # fs) =
     appendColumns
       ((if i > 0 then b @ '', '' else b) @ (if table \<noteq> [] then table @ ''.'' else []) @ SQLName f)
       table (Suc i) fs"

text \<open>
  The models a values query can be bound to: a struct, a slice of structs (both table models),
  a slice of maps, or anything else. \<^verbatim>\<open>q.tableModel != nil\<close> holds exactly for the first two.
\<close>

datatype tableModel = StructTableModel strct | SliceTableModel "strct list" | OtherTableModel

datatype model = TableModel tableModel | MapSliceModel mapSliceModel | OtherModel

text \<open>\<^verbatim>\<open>baseQuery\<close>, as far as both queries use it: the sticky error.\<close>

record baseQuery =
  err :: "error option"

text \<open>
  Modelled from the spec: \<^verbatim>\<open>baseQuery.setErr\<close> is not in the sources. Section 7: a build-time
  error is "Stored on first occurrence".
\<close>

definition setErr :: "error \<Rightarrow> 'a baseQuery_scheme \<Rightarrow> 'a baseQuery_scheme" where
  "setErr e q = (case err q of None \<Rightarrow> q\<lparr>err := Some e\<rparr> | Some _ \<Rightarrow> q)"

text \<open>
  \<^verbatim>\<open>ValuesQuery\<close>. \<open>features_ValuesRow\<close> is \<^verbatim>\<open>q.db.features.Has(feature.ValuesRow)\<close>,
  \<open>getFields\<close> the outcome of the schema call \<^verbatim>\<open>q.getFields()\<close>, \<open>modelValues\<close> the map of
  \<^verbatim>\<open>customValueQuery\<close>.
\<close>

record ValuesQuery = baseQuery +
  features_ValuesRow :: bool
  model :: "model option"
  getFields :: "error + Field list"
  modelValues :: "string \<Rightarrow> QueryWithArgs option"
  withOrder :: bool

text \<open>
  \<^verbatim>\<open>ValuesQuery.AppendColumns\<close>. The query is returned with the result, since the map-slice model
  caches its keys.
\<close>

definition AppendColumns_values ::
    "fmter \<Rightarrow> string \<Rightarrow> ValuesQuery \<Rightarrow> (error + string) \<times> ValuesQuery" where
  "AppendColumns_values fmter b q =
     (case err q of
        Some e \<Rightarrow> (Inl e, q)
      | None \<Rightarrow>
     (case model q of
        None \<Rightarrow> (Inl ErrModelNil, q)
      | Some (TableModel tm) \<Rightarrow>
          (case getFields q of
             Inl e \<Rightarrow> (Inl e, q)
           | Inr flds \<Rightarrow>
               (let b1 = appendColumns b [] 0 flds
                in (Inr (if withOrder q then b1 @ '', _order'' else b1), q)))
      | Some (MapSliceModel m) \<Rightarrow>
          (case appendColumns_mapSlice fmter b m of
             Inl e \<Rightarrow> (Inl e, q)
           | Inr (b1, m1) \<Rightarrow> (Inr b1, q\<lparr>model := Some (MapSliceModel m1)\<rparr>))
      | Some OtherModel \<Rightarrow> (Inl ErrNotSupported, q)))"

text \<open>\<^verbatim>\<open>ValuesQuery.AppendArg\<close>: the expansion of the named reference \<open>Columns\<close>.\<close>

definition AppendArg ::
    "fmter \<Rightarrow> string \<Rightarrow> string \<Rightarrow> ValuesQuery \<Rightarrow> (string \<times> bool) \<times> ValuesQuery" where
  "AppendArg fmter b name q =
     (if name = ''Columns''
      then (case AppendColumns_values fmter b q of
              (Inl e, q1) \<Rightarrow> ((b, True), setErr e q1)
            | (Inr bb, q1) \<Rightarrow> ((bb, True), q1))
      else ((b, False), q))"

text \<open>\<^verbatim>\<open>ValuesQuery.appendValues\<close>: the loop \<^verbatim>\<open>for i, f := range fields\<close>, from index \<open>i\<close> on.\<close>

fun appendValues ::
    "(string \<Rightarrow> QueryWithArgs option) \<Rightarrow> fmter \<Rightarrow> string \<Rightarrow> nat \<Rightarrow> Field list \<Rightarrow> strct
       \<Rightarrow> error + string" where
  "appendValues mv fmter b i [] v = Inr b"
| "appendValues mv fmter b i (f # fs) v =
     (let b1 = (if i > 0 then b @ '', '' else b)
      in case mv (Name f) of
           Some app \<Rightarrow>
             (case AppendQuery_node fmter b1 app of
                Inl e \<Rightarrow> Inl e
              | Inr b2 \<Rightarrow> appendValues mv fmter b2 (Suc i) fs v)
         | None \<Rightarrow>
             (let b2 = (if IsNopFormatter fmter then b1 @ ''?'' else AppendValue f fmter b1 v);
                  b3 = b2 @ ''::'' @ UserSQLType f
              in appendValues mv fmter b3 (Suc i) fs v))"

text \<open>The loop \<^verbatim>\<open>for i := 0; i < sliceLen; i++\<close> of \<^verbatim>\<open>ValuesQuery.appendQuery\<close>.\<close>

fun appendSliceValues ::
    "ValuesQuery \<Rightarrow> fmter \<Rightarrow> Field list \<Rightarrow> string \<Rightarrow> nat \<Rightarrow> strct list \<Rightarrow> error + string" where
  "appendSliceValues q fmter flds b i [] = Inr b"
| "appendSliceValues q fmter flds b i (v # vs) =
     (case appendValues (modelValues q) fmter (if i > 0 then b @ ''), ('' else b) 0 flds v of
        Inl e \<Rightarrow> Inl e
      | Inr b1 \<Rightarrow>
          appendSliceValues q fmter flds
            (if withOrder q then AppendInt (b1 @ '', '') (int i) else b1) (Suc i) vs)"

definition appendQuery_values ::
    "fmter \<Rightarrow> string \<Rightarrow> Field list \<Rightarrow> tableModel \<Rightarrow> ValuesQuery \<Rightarrow> error + string" where
  "appendQuery_values fmter b flds tm q =
     (let b1 = b @ ''VALUES '' @ openRow (features_ValuesRow q)
      in case tm of
           StructTableModel v \<Rightarrow>
             (case appendValues (modelValues q) fmter b1 0 flds v of
                Inl e \<Rightarrow> Inl e
              | Inr b2 \<Rightarrow> Inr ((if withOrder q then AppendInt (b2 @ '', '') 0 else b2) @ '')''))
         | SliceTableModel vs \<Rightarrow>
             (case appendSliceValues q fmter flds b1 0 vs of
                Inl e \<Rightarrow> Inl e
              | Inr b2 \<Rightarrow> Inr (b2 @ '')''))
         | OtherTableModel \<Rightarrow> Inl ErrNotSupported)"

text \<open>
  \<^verbatim>\<open>ValuesQuery.AppendQuery\<close>. \<^verbatim>\<open>formatterWithModel\<close> only adds the query as the resolver of
  named references, which this model does not expand, so the formatter is passed on as it is.
\<close>

definition AppendQuery_values ::
    "fmter \<Rightarrow> string \<Rightarrow> ValuesQuery \<Rightarrow> (error + string) \<times> ValuesQuery" where
  "AppendQuery_values fmter b q =
     (case err q of
        Some e \<Rightarrow> (Inl e, q)
      | None \<Rightarrow>
     (case model q of
        None \<Rightarrow> (Inl ErrModelNil, q)
      | Some (TableModel tm) \<Rightarrow>
          (case getFields q of
             Inl e \<Rightarrow> (Inl e, q)
           | Inr flds \<Rightarrow> (appendQuery_values fmter b flds tm q, q))
      | Some (MapSliceModel m) \<Rightarrow>
          (case appendValues_mapSlice fmter b m of
             Inl e \<Rightarrow> (Inl e, q)
           | Inr (b1, m1) \<Rightarrow> (Inr b1, q\<lparr>model := Some (MapSliceModel m1)\<rparr>))
      | Some OtherModel \<Rightarrow> (Inl ErrNotSupported, q)))"

text \<open>
  What one field contributes to a row, in the words of the amended C10: the custom expression
  alone when the query has one for the field, otherwise the value (or the placeholder) followed
  by \<open>::\<close> and the field's user SQL type.
\<close>

definition field_text :: "(string \<Rightarrow> QueryWithArgs option) \<Rightarrow> fmter \<Rightarrow> strct \<Rightarrow> Field \<Rightarrow> string" where
  "field_text mv fmter v f =
     (case mv (Name f) of
        Some app \<Rightarrow>
          (case Args app of None \<Rightarrow> Query app | Some args \<Rightarrow> format_args fmter (Query app) args)
      | None \<Rightarrow> Append fmter [] (v (Name f)) @ ''::'' @ UserSQLType f)"

definition no_values :: "string \<Rightarrow> QueryWithArgs option" where
  "no_values name = None"

definition nil_strct :: strct where
  "nil_strct name = VNil"

definition empty_values_query :: ValuesQuery where
  "empty_values_query =
     \<lparr>err = None, features_ValuesRow = False, model = None, getFields = Inr [],
      modelValues = no_values, withOrder = False\<rparr>"


definition default_values :: "string \<Rightarrow> QueryWithArgs option" where
  "default_values name = (if name = ''id'' then Some (SafeQuery ''DEFAULT'' []) else None)"

text \<open>The model after a rendering call: a map-slice model has its keys cached.\<close>

definition cached :: "model option \<Rightarrow> model option" where
  "cached mo =
     (case mo of
        Some (MapSliceModel m) \<Rightarrow>
          Some (MapSliceModel (case initKeys m of Inl _ \<Rightarrow> m | Inr m1 \<Rightarrow> m1))
      | _ \<Rightarrow> mo)"


section \<open>query\_select.go: the select query\<close>

subsection \<open>Schema tables and relation joins\<close>

text \<open>
  Modelled from the spec: \<^verbatim>\<open>schema.Table\<close> is not in the sources. Section 6: the schema
  registry returns "table name, alias, ordered field list". \<open>FieldMap\<close> is the table's map
  from column names to fields.
\<close>

record Table =
  Alias :: string
  SQLNameForSelects :: string
  Fields :: "Field list"
  FieldMap :: "string \<Rightarrow> Field option"

text \<open>
  Modelled from the spec: the type \<^verbatim>\<open>join\<close> of relation joins is not in the sources.
  Section 3: a join descriptor is a "relation type (has-one / belongs-to / has-many /
  many-to-many), a reference to the related entity's metadata, an alias, an optional column
  subset", with its ON condition; \<open>GetJoins\<close> are the joins of the related entity's own model.
\<close>

datatype relType = HasOneRelation | BelongsToRelation | HasManyRelation | ManyToManyRelation

datatype relJoin =
  RelJoin (RelationType: relType) (JoinTable: Table) (JoinAlias: string)
    (joinColumns: "QueryWithArgs list") (JoinCond: string) (GetJoins: "relJoin list")

text \<open>
  Modelled from the spec: \<^verbatim>\<open>join.appendAlias\<close>, \<^verbatim>\<open>join.appendAliasColumn\<close> and
  \<^verbatim>\<open>join.appendHasOneJoin\<close> are not in the sources. Section 4.3: the columns are "each
  aliased as <relation-alias>__<field>", and the join is the fragment
  "JOIN <related-table> AS <alias> ON (<condition>)".
\<close>

definition appendAlias :: "relJoin \<Rightarrow> fmter \<Rightarrow> string \<Rightarrow> string" where
  "appendAlias j fmter b = b @ JoinAlias j"

text \<open>
  Modelled from the spec: \<^verbatim>\<open>join.appendAliasColumn\<close>, the name "<relation-alias>__<field>" of
  section 4.3.
\<close>

definition appendAliasColumn :: "relJoin \<Rightarrow> fmter \<Rightarrow> string \<Rightarrow> string \<Rightarrow> string" where
  "appendAliasColumn j fmter b name = b @ JoinAlias j @ ''__'' @ name"

text \<open>
  Modelled from the spec: \<^verbatim>\<open>join.appendHasOneJoin\<close>, the fragment
  "JOIN <related-table> AS <alias> ON (<condition>)" of section 4.3.
\<close>

definition appendHasOneJoin :: "relJoin \<Rightarrow> fmter \<Rightarrow> string \<Rightarrow> error + string" where
  "appendHasOneJoin j fmter b =
     Inr (b @ ''JOIN '' @ SQLNameForSelects (JoinTable j) @ '' AS '' @ JoinAlias j
            @ '' ON ('' @ JoinCond j @ '')'')"

text \<open>
  \<^verbatim>\<open>_forEachHasOneJoin\<close>: the callback \<open>fn\<close> works on a state (the buffer, and what else the
  closure captures) and may fail; the walk is depth first and stops at the first error.
\<close>

fun forEachHasOneJoin_rec ::
    "(relJoin \<Rightarrow> 's \<Rightarrow> error + 's) \<Rightarrow> relJoin list \<Rightarrow> 's \<Rightarrow> error + 's" where
  "forEachHasOneJoin_rec fn [] s = Inr s"
| "forEachHasOneJoin_rec fn (RelJoin ty tbl al cols cond sub # js) s =
     (if ty = HasOneRelation \<or> ty = BelongsToRelation
      then (case fn (RelJoin ty tbl al cols cond sub) s of
              Inl e \<Rightarrow> Inl e
            | Inr s1 \<Rightarrow>
                (case forEachHasOneJoin_rec fn sub s1 of
                   Inl e \<Rightarrow> Inl e
                 | Inr s2 \<Rightarrow> forEachHasOneJoin_rec fn js s2))
      else forEachHasOneJoin_rec fn js s)"

text \<open>\<^verbatim>\<open>selectJoins\<close>: \<open>ld\<close> is the outcome of \<^verbatim>\<open>j.Select\<close>, the external relation loader.\<close>

fun selectJoins :: "(relJoin \<Rightarrow> error option) \<Rightarrow> relJoin list \<Rightarrow> error option" where
  "selectJoins ld [] = None"
| "selectJoins ld (RelJoin ty tbl al cols cond sub # js) =
     (case (if ty = HasOneRelation \<or> ty = BelongsToRelation
            then selectJoins ld sub
            else ld (RelJoin ty tbl al cols cond sub)) of
        Some e \<Rightarrow> Some e
      | None \<Rightarrow> selectJoins ld js)"


subsection \<open>The query value\<close>

text \<open>
  \<^verbatim>\<open>joinQuery\<close>: a join written by the caller, with its ON conditions.
\<close>

record joinQuery =
  join :: QueryWithArgs
  on :: "QueryWithSep list"

text \<open>
  The fields of \<^verbatim>\<open>SelectQuery\<close> and of the \<^verbatim>\<open>whereBaseQuery\<close> it embeds, apart from the
  unions. \<open>table\<close> is \<^verbatim>\<open>q.table\<close> (\<open>None\<close> when no entity is bound), \<open>tableModel\<close> the joins
  \<^verbatim>\<open>q.tableModel.GetJoins()\<close> (\<open>None\<close> when \<^verbatim>\<open>q.tableModel\<close> is nil). \<open>withText\<close> is the text
  that \<^verbatim>\<open>q.appendWith\<close>, which is not in the sources, writes for the WITH clauses of the query.
  \<open>distinctOn = None\<close> is the nil slice. \<open>limit\<close> and \<open>offset\<close> are of type \<^verbatim>\<open>int32\<close>.
\<close>

record SelectFields = baseQuery +
  table :: "Table option"
  tableModel :: "relJoin list option"
  withText :: "fmter \<Rightarrow> error + string"
  modelTable :: QueryWithArgs
  tables :: "QueryWithArgs list"
  columns :: "QueryWithArgs list"
  q_where :: "QueryWithSep list"
  distinctOn :: "QueryWithArgs list option"
  joins :: "joinQuery list"
  q_group :: "QueryWithArgs list"
  having :: "QueryWithArgs list"
  q_order :: "QueryWithArgs list"
  limit :: "32 word"
  offset :: "32 word"
  selFor :: QueryWithArgs

text \<open>
  \<^verbatim>\<open>SelectQuery\<close>: the fields and the unions, each union an operator and another select query.
\<close>

datatype SelectQuery =
  SelectQuery (sel: SelectFields) (union: "(string \<times> SelectQuery) list")

definition upd :: "(SelectFields \<Rightarrow> SelectFields) \<Rightarrow> SelectQuery \<Rightarrow> SelectQuery" where
  "upd f q = SelectQuery (f (sel q)) (union q)"

subsection \<open>Rendering loops\<close>

text \<open>
  The loop \<^verbatim>\<open>for i, f := range xs { if i > 0 { b = append(b, sep...) }; b, err =
  f.AppendQuery(fmter, b); if err != nil { return nil, err } }\<close> that \<^verbatim>\<open>appendQuery\<close>,
  \<^verbatim>\<open>appendOrder\<close> and \<^verbatim>\<open>appendHasOneColumns\<close> run over the DISTINCT ON, GROUP BY, ORDER BY
  and join column nodes.
\<close>

fun appendNodes ::
    "fmter \<Rightarrow> string \<Rightarrow> string \<Rightarrow> nat \<Rightarrow> 'a QueryWithArgs_scheme list \<Rightarrow> error + string" where
  "appendNodes fmter sep b i [] = Inr b"
| "appendNodes fmter sep b i (f # fs) =
     (case AppendQuery_node fmter (if i > 0 then b @ sep else b) f of
        Inl e \<Rightarrow> Inl e
      | Inr b1 \<Rightarrow> appendNodes fmter sep b1 (Suc i) fs)"

text \<open>The HAVING loop: the separator is \<open>AND\<close>, each node is put in parentheses.\<close>

fun appendHaving :: "fmter \<Rightarrow> string \<Rightarrow> nat \<Rightarrow> QueryWithArgs list \<Rightarrow> error + string" where
  "appendHaving fmter b i [] = Inr b"
| "appendHaving fmter b i (f # fs) =
     (case AppendQuery_node fmter ((if i > 0 then b @ '' AND '' else b) @ ''('') f of
        Inl e \<Rightarrow> Inl e
      | Inr b1 \<Rightarrow> appendHaving fmter (b1 @ '')'') (Suc i) fs)"

text \<open>
  The ON loop of \<^verbatim>\<open>joinQuery.AppendQuery\<close>: each node brings its own separator and is put in
  parentheses.
\<close>

fun appendSepNodes :: "fmter \<Rightarrow> string \<Rightarrow> nat \<Rightarrow> QueryWithSep list \<Rightarrow> error + string" where
  "appendSepNodes fmter b i [] = Inr b"
| "appendSepNodes fmter b i (w # ws) =
     (case AppendQuery_node fmter ((if i > 0 then b @ Sep w else b) @ ''('') w of
        Inl e \<Rightarrow> Inl e
      | Inr b1 \<Rightarrow> appendSepNodes fmter (b1 @ '')'') (Suc i) ws)"

text \<open>
  Modelled from the spec: \<^verbatim>\<open>whereBaseQuery.appendWhere\<close> is not in the sources. Section 4.1
  has "an AND/OR-joined predicate node" attached "to a single flat WHERE list", and the
  example of section 8 renders \<open>WHERE (id = 5)\<close>: the keyword, then the nodes as the ON loop
  writes them.
\<close>

definition appendWhere :: "fmter \<Rightarrow> string \<Rightarrow> SelectFields \<Rightarrow> error + string" where
  "appendWhere fmter b q =
     (if q_where q = [] then Inr b else appendSepNodes fmter (b @ '' WHERE '') 0 (q_where q))"

text \<open>
  \<^verbatim>\<open>q.appendWith\<close>, through the parameter \<open>withText\<close>: the text is appended to the buffer.
\<close>

definition appendWith :: "fmter \<Rightarrow> string \<Rightarrow> SelectFields \<Rightarrow> error + string" where
  "appendWith fmter b q = (case withText q fmter of Inl e \<Rightarrow> Inl e | Inr t \<Rightarrow> Inr (b @ t))"

text \<open>\<^verbatim>\<open>joinQuery.AppendQuery\<close>.\<close>

definition AppendQuery_join :: "fmter \<Rightarrow> string \<Rightarrow> joinQuery \<Rightarrow> error + string" where
  "AppendQuery_join fmter b j =
     (case AppendQuery_node fmter (b @ '' '') (join j) of
        Inl e \<Rightarrow> Inl e
      | Inr b1 \<Rightarrow>
          (if on j \<noteq> [] then appendSepNodes fmter (b1 @ '' ON '') 0 (on j) else Inr b1))"

text \<open>The loop \<^verbatim>\<open>for _, j := range q.joins\<close> of \<^verbatim>\<open>appendQuery\<close>.\<close>

fun appendJoins :: "fmter \<Rightarrow> string \<Rightarrow> joinQuery list \<Rightarrow> error + string" where
  "appendJoins fmter b [] = Inr b"
| "appendJoins fmter b (j # js) =
     (case AppendQuery_join fmter b j of
        Inl e \<Rightarrow> Inl e
      | Inr b1 \<Rightarrow> appendJoins fmter b1 js)"

text \<open>\<^verbatim>\<open>q.forEachHasOneJoin\<close>.\<close>

definition forEachHasOneJoin ::
    "(relJoin \<Rightarrow> 's \<Rightarrow> error + 's) \<Rightarrow> SelectFields \<Rightarrow> 's \<Rightarrow> error + 's" where
  "forEachHasOneJoin fn q s =
     (case tableModel q of None \<Rightarrow> Inr s | Some js \<Rightarrow> forEachHasOneJoin_rec fn js s)"


subsection \<open>Rendering the clauses\<close>

text \<open>The Go idiom \<^verbatim>\<open>b, err = f(b); if err != nil { return nil, err }\<close>.\<close>

definition and_then :: "error + 'a \<Rightarrow> ('a \<Rightarrow> error + 'b) \<Rightarrow> error + 'b" where
  "and_then r f = (case r of Inl e \<Rightarrow> Inl e | Inr x \<Rightarrow> f x)"

text \<open>\<^verbatim>\<open>bytes.TrimSuffix\<close>.\<close>

definition TrimSuffix :: "string \<Rightarrow> string \<Rightarrow> string" where
  "TrimSuffix b suf =
     (if length suf \<le> length b \<and> drop (length b - length suf) b = suf
      then take (length b - length suf) b else b)"

text \<open>
  \<^verbatim>\<open>appendHasOneColumns\<close>. The call \<^verbatim>\<open>join.applyQuery(q)\<close> at its start is not in the sources
  and the spec does not describe it; the join descriptor is taken as it stands after that call,
  \<open>joinColumns\<close> being the column subset the caller scoped.
\<close>

fun appendJoinFields :: "relJoin \<Rightarrow> fmter \<Rightarrow> string \<Rightarrow> nat \<Rightarrow> Field list \<Rightarrow> string" where
  "appendJoinFields j fmter b i [] = b"
| "appendJoinFields j fmter b i (f # fs) =
     appendJoinFields j fmter
       (appendAliasColumn j fmter
          (appendAlias j fmter (if i > 0 then b @ '', '' else b) @ ''.'' @ SQLName f @ '' AS '')
          (Name f))
       (Suc i) fs"

definition appendHasOneColumns :: "fmter \<Rightarrow> string \<Rightarrow> relJoin \<Rightarrow> error + string" where
  "appendHasOneColumns fmter b j =
     (if joinColumns j \<noteq> []
      then appendNodes fmter '', '' b 0 (joinColumns j)
      else Inr (appendJoinFields j fmter b 0 (Fields (JoinTable j))))"

text \<open>
  The loop over \<^verbatim>\<open>q.columns\<close> in \<^verbatim>\<open>SelectQuery.appendColumns\<close>. For an identifier node the
  code reads \<^verbatim>\<open>q.table.FieldMap\<close> without testing \<^verbatim>\<open>q.table\<close>: with no table bound this is a
  nil pointer dereference.
\<close>

fun appendColumnNodes ::
    "fmter \<Rightarrow> Table option \<Rightarrow> string \<Rightarrow> nat \<Rightarrow> QueryWithArgs list \<Rightarrow> error + string" where
  "appendColumnNodes fmter tbl b i [] = Inr b"
| "appendColumnNodes fmter tbl b i (col # cols) =
     (let b1 = (if i > 0 then b @ '', '' else b)
      in case Args col of
           None \<Rightarrow>
             (case tbl of
                None \<Rightarrow> Inl ErrNilDeref
              | Some t \<Rightarrow>
                  (case FieldMap t (Query col) of
                     Some field \<Rightarrow>
                       appendColumnNodes fmter tbl (b1 @ Alias t @ ''.'' @ SQLName field)
                         (Suc i) cols
                   | None \<Rightarrow>
                       and_then (AppendQuery_node fmter b1 col)
                         (\<lambda>b2. appendColumnNodes fmter tbl b2 (Suc i) cols)))
         | Some _ \<Rightarrow>
             and_then (AppendQuery_node fmter b1 col)
               (\<lambda>b2. appendColumnNodes fmter tbl b2 (Suc i) cols))"

text \<open>The \<^verbatim>\<open>switch\<close> of \<^verbatim>\<open>SelectQuery.appendColumns\<close>: the query's own columns.\<close>

definition appendOwnColumns :: "fmter \<Rightarrow> string \<Rightarrow> SelectFields \<Rightarrow> error + string" where
  "appendOwnColumns fmter b q =
     (if columns q \<noteq> [] then appendColumnNodes fmter (table q) b 0 (columns q)
      else (case table q of
              Some t \<Rightarrow>
                (if length (Fields t) > 10 \<and> IsNopFormatter fmter
                 then Inr (AppendString (b @ Alias t @ ''.'')
                             (nat_digits (length (Fields t)) @ '' columns''))
                 else Inr (appendColumns b (Alias t) 0 (Fields t)))
            | None \<Rightarrow> Inr (b @ ''*'')))"

text \<open>
  The closure passed to \<^verbatim>\<open>forEachHasOneJoin\<close> in \<^verbatim>\<open>SelectQuery.appendColumns\<close>; it captures
  the buffer and \<^verbatim>\<open>start\<close>.
\<close>

definition hasOneColumnsStep ::
    "fmter \<Rightarrow> relJoin \<Rightarrow> string \<times> nat \<Rightarrow> error + (string \<times> nat)" where
  "hasOneColumnsStep fmter j st =
     (let b = fst st; start = snd st;
          b1 = (if length b \<noteq> start then b @ '', '' else b);
          start1 = (if length b \<noteq> start then length b1 else start)
      in and_then (appendHasOneColumns fmter b1 j) (\<lambda>b2. Inr (b2, start1)))"

definition appendColumns_select :: "fmter \<Rightarrow> string \<Rightarrow> SelectFields \<Rightarrow> error + string" where
  "appendColumns_select fmter b q =
     and_then (appendOwnColumns fmter b q) (\<lambda>b1.
     and_then (forEachHasOneJoin (hasOneColumnsStep fmter) q (b1, length b)) (\<lambda>st.
     Inr (TrimSuffix (fst st) '', '')))"

text \<open>
  Modelled from the spec: \<^verbatim>\<open>hasTables\<close> and \<^verbatim>\<open>modelHasTableName\<close> are not in the sources.
  Section 8 renders \<open>FROM "t"\<close> for a select on a bound entity; the model has a table name when
  a model table expression was given or an entity table is bound, and the query has tables
  when it has that or a table of its own.
\<close>

definition modelHasTableName :: "SelectFields \<Rightarrow> bool" where
  "modelHasTableName q = (\<not> IsZero (modelTable q) \<or> table q \<noteq> None)"

text \<open>
  Modelled from the spec: \<^verbatim>\<open>baseQuery.hasTables\<close> is not in the sources; a query has tables
  when its model has a table name or the caller added a table (section 8 renders a FROM
  clause in both cases).
\<close>

definition hasTables :: "SelectFields \<Rightarrow> bool" where
  "hasTables q = (modelHasTableName q \<or> tables q \<noteq> [])"

text \<open>The loop \<^verbatim>\<open>for _, table := range q.tables\<close> of \<^verbatim>\<open>appendTables\<close>.\<close>

fun appendTableNodes ::
    "fmter \<Rightarrow> nat \<Rightarrow> string \<Rightarrow> QueryWithArgs list \<Rightarrow> error + string" where
  "appendTableNodes fmter startLen b [] = Inr b"
| "appendTableNodes fmter startLen b (t # ts) =
     and_then (AppendQuery_node fmter (if length b > startLen then b @ '', '' else b) t)
       (\<lambda>b1. appendTableNodes fmter startLen b1 ts)"

definition appendTables :: "fmter \<Rightarrow> string \<Rightarrow> SelectFields \<Rightarrow> error + string" where
  "appendTables fmter b q =
     (let b0 = b @ '' FROM ''; startLen = length b0
      in and_then
           (if modelHasTableName q
            then (if \<not> IsZero (modelTable q) then AppendQuery_node fmter b0 (modelTable q)
                  else (case table q of
                          None \<Rightarrow> Inl ErrNilDeref
                        | Some t \<Rightarrow>
                            (let b1 = FormatQuery fmter b0 (SQLNameForSelects t) []
                             in Inr (if Alias t \<noteq> SQLNameForSelects t
                                     then b1 @ '' AS '' @ Alias t else b1))))
            else Inr b0)
           (\<lambda>b1. appendTableNodes fmter startLen b1 (tables q)))"

definition appendOrder :: "fmter \<Rightarrow> string \<Rightarrow> SelectFields \<Rightarrow> error + string" where
  "appendOrder fmter b q =
     (if q_order q \<noteq> [] then appendNodes fmter '', '' (b @ '' ORDER BY '') 0 (q_order q)
      else Inr b)"


subsection \<open>appendQuery\<close>

text \<open>The parts of \<^verbatim>\<open>SelectQuery.appendQuery\<close>, in the order of the source.\<close>

definition cteCount :: "bool \<Rightarrow> SelectFields \<Rightarrow> bool" where
  "cteCount count q = (count \<and> (q_group q \<noteq> [] \<or> distinctOn q \<noteq> None))"

definition appendDistinct :: "fmter \<Rightarrow> string \<Rightarrow> SelectFields \<Rightarrow> error + string" where
  "appendDistinct fmter b q =
     (case distinctOn q of
        None \<Rightarrow> Inr b
      | Some ds \<Rightarrow>
          (if ds \<noteq> []
           then and_then (appendNodes fmter '', '' (b @ ''DISTINCT ON ('') 0 ds)
                  (\<lambda>b1. Inr (b1 @ '') ''))
           else Inr (b @ ''DISTINCT '')))"

text \<open>From the FROM clause to the HAVING clause.\<close>

definition appendClauses :: "fmter \<Rightarrow> string \<Rightarrow> SelectFields \<Rightarrow> error + string" where
  "appendClauses fmter b q =
     and_then (if hasTables q then appendTables fmter b q else Inr b) (\<lambda>b1.
     and_then (forEachHasOneJoin (\<lambda>j b. appendHasOneJoin j fmter (b @ '' '')) q b1) (\<lambda>b2.
     and_then (appendJoins fmter b2 (joins q)) (\<lambda>b3.
     and_then (appendWhere fmter b3 q) (\<lambda>b4.
     and_then (if q_group q \<noteq> []
               then appendNodes fmter '', '' (b4 @ '' GROUP BY '') 0 (q_group q)
               else Inr b4) (\<lambda>b5.
     (if having q \<noteq> [] then appendHaving fmter (b5 @ '' HAVING '') 0 (having q)
      else Inr b5))))))"

text \<open>The block under \<^verbatim>\<open>if !count\<close>: ORDER BY, LIMIT, OFFSET and FOR.\<close>

definition appendTail :: "fmter \<Rightarrow> string \<Rightarrow> SelectFields \<Rightarrow> error + string" where
  "appendTail fmter b q =
     and_then (appendOrder fmter b q) (\<lambda>b1.
       (let b2 = (if limit q \<noteq> 0 then AppendInt (b1 @ '' LIMIT '') (sint (limit q)) else b1);
            b3 = (if offset q \<noteq> 0 then AppendInt (b2 @ '' OFFSET '') (sint (offset q)) else b2)
        in if \<not> IsZero (selFor q) then AppendQuery_node fmter (b3 @ '' FOR '') (selFor q)
           else Inr b3))"

text \<open>
  Everything \<^verbatim>\<open>appendQuery\<close> writes before the union members; \<open>hasUnion\<close> is
  \<^verbatim>\<open>len(q.union) > 0\<close>.
\<close>

definition appendSelect ::
    "fmter \<Rightarrow> string \<Rightarrow> bool \<Rightarrow> bool \<Rightarrow> SelectFields \<Rightarrow> error + string" where
  "appendSelect fmter b count hasUnion q =
     (let b0 = (if cteCount count q then b @ ''WITH _count_wrapper AS ('' else b);
          b1 = (if hasUnion then b0 @ ''('' else b0)
      in and_then (appendWith fmter b1 q) (\<lambda>b2.
         and_then (appendDistinct fmter (b2 @ ''SELECT '') q) (\<lambda>b3.
         and_then (if count \<and> \<not> cteCount count q then Inr (b3 @ ''count(*)'')
                   else appendColumns_select fmter b3 q) (\<lambda>b4.
         and_then (appendClauses fmter b4 q) (\<lambda>b5.
         (if \<not> count then appendTail fmter b5 q else Inr b5))))))"

text \<open>
  \<^verbatim>\<open>appendQuery\<close>, with the loop over the unions. A union member is rendered by its own
  \<^verbatim>\<open>AppendQuery\<close>, that is with \<open>count = False\<close>; \<^verbatim>\<open>formatterWithModel\<close> only adds the query
  as the resolver of named references, which this model does not expand.
\<close>

fun appendQuery :: "fmter \<Rightarrow> string \<Rightarrow> bool \<Rightarrow> SelectQuery \<Rightarrow> error + string"
and appendUnions :: "fmter \<Rightarrow> string \<Rightarrow> (string \<times> SelectQuery) list \<Rightarrow> error + string" where
  "appendQuery fmter b count (SelectQuery q us) =
     (case err q of
        Some e \<Rightarrow> Inl e
      | None \<Rightarrow>
          (case appendSelect fmter b count (us \<noteq> []) q of
             Inl e \<Rightarrow> Inl e
           | Inr b1 \<Rightarrow>
               (case (if us \<noteq> [] then appendUnions fmter (b1 @ '')'') us else Inr b1) of
                  Inl e \<Rightarrow> Inl e
                | Inr b2 \<Rightarrow>
                    Inr (if cteCount count q
                         then b2 @ '') SELECT count(*) FROM _count_wrapper'' else b2))))"
| "appendUnions fmter b [] = Inr b"
| "appendUnions fmter b ((expr, q) # us) =
     (case appendQuery fmter (b @ expr @ ''('') False q of
        Inl e \<Rightarrow> Inl e
      | Inr b1 \<Rightarrow> appendUnions fmter (b1 @ '')'') us)"

definition AppendQuery :: "fmter \<Rightarrow> string \<Rightarrow> SelectQuery \<Rightarrow> error + string" where
  "AppendQuery fmter b q = appendQuery fmter b False q"


subsection \<open>The builder methods\<close>

text \<open>
  Modelled from the spec: \<^verbatim>\<open>baseQuery.addTable\<close>, \<^verbatim>\<open>baseQuery.addColumn\<close> and
  \<^verbatim>\<open>whereBaseQuery.addWhere\<close> are not in the sources. Section 4.1: "each fluent method
  appends a node to the relevant clause list".
\<close>

definition addTable :: "QueryWithArgs \<Rightarrow> SelectFields \<Rightarrow> SelectFields" where
  "addTable t q = q\<lparr>tables := tables q @ [t]\<rparr>"

text \<open>
  Modelled from the spec: \<^verbatim>\<open>baseQuery.addColumn\<close> appends a node to the column list
  (section 4.1).
\<close>

definition addColumn :: "QueryWithArgs \<Rightarrow> SelectFields \<Rightarrow> SelectFields" where
  "addColumn c q = q\<lparr>columns := columns q @ [c]\<rparr>"

text \<open>
  Modelled from the spec: \<^verbatim>\<open>whereBaseQuery.addWhere\<close> appends a node to the WHERE list
  (section 4.1).
\<close>

definition addWhere :: "QueryWithSep \<Rightarrow> SelectFields \<Rightarrow> SelectFields" where
  "addWhere w q = q\<lparr>q_where := q_where q @ [w]\<rparr>"

text \<open>
  The builder methods of \<^verbatim>\<open>SelectQuery\<close>. Each method returns the query it was called on; the
  returned value is the query after the call. A loop over the variadic arguments is a \<open>fold\<close>.
  Go's \<^verbatim>\<open>int\<close> is taken as 64 bits wide, \<^verbatim>\<open>int32(n)\<close> keeps the low 32 bits.
\<close>

definition Distinct :: "SelectQuery \<Rightarrow> SelectQuery" where
  "Distinct = upd (\<lambda>q. q\<lparr>distinctOn := Some []\<rparr>)"

definition DistinctOn :: "string \<Rightarrow> val list \<Rightarrow> SelectQuery \<Rightarrow> SelectQuery" where
  "DistinctOn query args =
     upd (\<lambda>q. q\<lparr>distinctOn :=
       Some ((case distinctOn q of None \<Rightarrow> [] | Some ds \<Rightarrow> ds) @ [SafeQuery query args])\<rparr>)"

definition Table :: "string list \<Rightarrow> SelectQuery \<Rightarrow> SelectQuery" where
  "Table ts = upd (fold (\<lambda>t. addTable (UnsafeIdent t)) ts)"

definition TableExpr :: "string \<Rightarrow> val list \<Rightarrow> SelectQuery \<Rightarrow> SelectQuery" where
  "TableExpr query args = upd (addTable (SafeQuery query args))"

definition ModelTableExpr :: "string \<Rightarrow> val list \<Rightarrow> SelectQuery \<Rightarrow> SelectQuery" where
  "ModelTableExpr query args = upd (\<lambda>q. q\<lparr>modelTable := SafeQuery query args\<rparr>)"

definition Column :: "string list \<Rightarrow> SelectQuery \<Rightarrow> SelectQuery" where
  "Column cs = upd (fold (\<lambda>c. addColumn (UnsafeIdent c)) cs)"

definition ColumnExpr :: "string \<Rightarrow> val list \<Rightarrow> SelectQuery \<Rightarrow> SelectQuery" where
  "ColumnExpr query args = upd (addColumn (SafeQuery query args))"

definition Where :: "string \<Rightarrow> val list \<Rightarrow> SelectQuery \<Rightarrow> SelectQuery" where
  "Where query args = upd (addWhere (SafeQueryWithSep query args '' AND ''))"

definition WhereOr :: "string \<Rightarrow> val list \<Rightarrow> SelectQuery \<Rightarrow> SelectQuery" where
  "WhereOr query args = upd (addWhere (SafeQueryWithSep query args '' OR ''))"

definition Group :: "string list \<Rightarrow> SelectQuery \<Rightarrow> SelectQuery" where
  "Group cs = upd (fold (\<lambda>c q. q\<lparr>q_group := q_group q @ [UnsafeIdent c]\<rparr>) cs)"

definition GroupExpr :: "string \<Rightarrow> val list \<Rightarrow> SelectQuery \<Rightarrow> SelectQuery" where
  "GroupExpr g args = upd (\<lambda>q. q\<lparr>q_group := q_group q @ [SafeQuery g args]\<rparr>)"

definition Having :: "string \<Rightarrow> val list \<Rightarrow> SelectQuery \<Rightarrow> SelectQuery" where
  "Having h args = upd (\<lambda>q. q\<lparr>having := having q @ [SafeQuery h args]\<rparr>)"

definition Order :: "string list \<Rightarrow> SelectQuery \<Rightarrow> SelectQuery" where
  "Order cs = upd (fold (\<lambda>c q. q\<lparr>q_order := q_order q @ [UnsafeIdent c]\<rparr>) cs)"

definition OrderExpr :: "string \<Rightarrow> val list \<Rightarrow> SelectQuery \<Rightarrow> SelectQuery" where
  "OrderExpr query args = upd (\<lambda>q. q\<lparr>q_order := q_order q @ [SafeQuery query args]\<rparr>)"

definition Limit :: "64 word \<Rightarrow> SelectQuery \<Rightarrow> SelectQuery" where
  "Limit n = upd (\<lambda>q. q\<lparr>limit := ucast n\<rparr>)"

definition Offset :: "64 word \<Rightarrow> SelectQuery \<Rightarrow> SelectQuery" where
  "Offset n = upd (\<lambda>q. q\<lparr>offset := ucast n\<rparr>)"

definition For :: "string \<Rightarrow> val list \<Rightarrow> SelectQuery \<Rightarrow> SelectQuery" where
  "For s args = upd (\<lambda>q. q\<lparr>selFor := SafeQuery s args\<rparr>)"

definition addUnion :: "string \<Rightarrow> SelectQuery \<Rightarrow> SelectQuery \<Rightarrow> SelectQuery" where
  "addUnion expr other q = SelectQuery (sel q) (union q @ [(expr, other)])"

definition Join :: "string \<Rightarrow> val list \<Rightarrow> SelectQuery \<Rightarrow> SelectQuery" where
  "Join j args = upd (\<lambda>q. q\<lparr>joins := joins q @ [\<lparr>join = SafeQuery j args, on = []\<rparr>]\<rparr>)"

definition joinOn :: "string \<Rightarrow> val list \<Rightarrow> string \<Rightarrow> SelectQuery \<Rightarrow> SelectQuery" where
  "joinOn cond args sep =
     upd (\<lambda>q. if joins q = [] then q\<lparr>err := Some ErrNoJoins\<rparr>
               else q\<lparr>joins := butlast (joins q)
                        @ [last (joins q)\<lparr>on := on (last (joins q))
                             @ [SafeQueryWithSep cond args sep]\<rparr>]\<rparr>)"

text \<open>The builder calls as data, to speak about call chains.\<close>

datatype call =
    Call_Distinct
  | Call_DistinctOn string "val list"
  | Call_Table "string list"
  | Call_TableExpr string "val list"
  | Call_ModelTableExpr string "val list"
  | Call_Column "string list"
  | Call_ColumnExpr string "val list"
  | Call_Where string "val list"
  | Call_WhereOr string "val list"
  | Call_Group "string list"
  | Call_GroupExpr string "val list"
  | Call_Having string "val list"
  | Call_Order "string list"
  | Call_OrderExpr string "val list"
  | Call_Limit "64 word"
  | Call_Offset "64 word"
  | Call_For string "val list"
  | Call_Union SelectQuery
  | Call_UnionAll SelectQuery
  | Call_Intersect SelectQuery
  | Call_IntersectAll SelectQuery
  | Call_Except SelectQuery
  | Call_ExceptAll SelectQuery
  | Call_Join string "val list"
  | Call_JoinOn string "val list"
  | Call_JoinOnOr string "val list"

fun apply_call :: "call \<Rightarrow> SelectQuery \<Rightarrow> SelectQuery" where
  "apply_call Call_Distinct = Distinct"
| "apply_call (Call_DistinctOn query args) = DistinctOn query args"
| "apply_call (Call_Table ts) = Table ts"
| "apply_call (Call_TableExpr query args) = TableExpr query args"
| "apply_call (Call_ModelTableExpr query args) = ModelTableExpr query args"
| "apply_call (Call_Column cs) = Column cs"
| "apply_call (Call_ColumnExpr query args) = ColumnExpr query args"
| "apply_call (Call_Where query args) = Where query args"
| "apply_call (Call_WhereOr query args) = WhereOr query args"
| "apply_call (Call_Group cs) = Group cs"
| "apply_call (Call_GroupExpr g args) = GroupExpr g args"
| "apply_call (Call_Having h args) = Having h args"
| "apply_call (Call_Order cs) = Order cs"
| "apply_call (Call_OrderExpr query args) = OrderExpr query args"
| "apply_call (Call_Limit n) = Limit n"
| "apply_call (Call_Offset n) = Offset n"
| "apply_call (Call_For s args) = For s args"
| "apply_call (Call_Union other) = addUnion '' UNION '' other"
| "apply_call (Call_UnionAll other) = addUnion '' UNION ALL '' other"
| "apply_call (Call_Intersect other) = addUnion '' INTERSECT '' other"
| "apply_call (Call_IntersectAll other) = addUnion '' INTERSECT ALL '' other"
| "apply_call (Call_Except other) = addUnion '' EXCEPT '' other"
| "apply_call (Call_ExceptAll other) = addUnion '' EXCEPT ALL '' other"
| "apply_call (Call_Join j args) = Join j args"
| "apply_call (Call_JoinOn cond args) = joinOn cond args '' AND ''"
| "apply_call (Call_JoinOnOr cond args) = joinOn cond args '' OR ''"

text \<open>A chain of calls, the first call of the list first.\<close>

fun apply_calls :: "call list \<Rightarrow> SelectQuery \<Rightarrow> SelectQuery" where
  "apply_calls [] q = q"
| "apply_calls (c # cs) q = apply_calls cs (apply_call c q)"

text \<open>
  \<^verbatim>\<open>NewSelectQuery\<close>: every field has its zero value. No WITH clause has been added, so
  \<^verbatim>\<open>appendWith\<close> writes nothing.
\<close>

definition no_with :: "fmter \<Rightarrow> error + string" where
  "no_with fmter = Inr []"

definition NewSelectQuery :: SelectQuery where
  "NewSelectQuery =
     SelectQuery
       \<lparr>err = None, table = None, tableModel = None, withText = no_with,
        modelTable = \<lparr>Query = [], Args = None\<rparr>, tables = [], columns = [], q_where = [],
        distinctOn = None, joins = [], q_group = [], having = [], q_order = [], limit = 0,
        offset = 0, selFor = \<lparr>Query = [], Args = None\<rparr>\<rparr>
       []"


subsection \<open>The execution facade\<close>

text \<open>
  The collaborators outside the sources, as parameters: \<open>db_fmter\<close> is \<^verbatim>\<open>q.db.fmter\<close>,
  \<open>scanRows\<close> the outcome of \<^verbatim>\<open>q.scan\<close> for a query text (the number of rows, or an error),
  \<open>queryRow\<close> the outcome of \<^verbatim>\<open>q.db.QueryRowContext(...).Scan(&num)\<close>, \<open>joinSelect\<close> the
  outcome of \<^verbatim>\<open>j.Select\<close> for a has-many join, \<open>afterSelect\<close> that of
  \<^verbatim>\<open>q.tableModel.AfterSelect\<close>.
\<close>

record driver =
  db_fmter :: fmter
  scanRows :: "string \<Rightarrow> error + nat"
  queryRow :: "string \<Rightarrow> error + int"
  joinSelect :: "relJoin \<Rightarrow> error option"
  afterSelect :: "error option"

text \<open>\<^verbatim>\<open>SelectQuery.Scan\<close>: the returned error, \<open>None\<close> for nil.\<close>

definition Scan :: "driver \<Rightarrow> SelectQuery \<Rightarrow> error option" where
  "Scan drv q =
     (case AppendQuery (db_fmter drv) [] q of
        Inl e \<Rightarrow> Some e
      | Inr query \<Rightarrow>
          (case scanRows drv query of
             Inl e \<Rightarrow> Some e
           | Inr n \<Rightarrow>
               (case tableModel (sel q) of
                  None \<Rightarrow> None
                | Some js \<Rightarrow>
                    (case (if n > 0 then selectJoins (joinSelect drv) js else None) of
                       Some e \<Rightarrow> Some e
                     | None \<Rightarrow> afterSelect drv))))"

text \<open>\<^verbatim>\<open>SelectQuery.Count\<close>: the number and the error.\<close>

definition Count :: "driver \<Rightarrow> SelectQuery \<Rightarrow> int \<times> error option" where
  "Count drv q =
     (case appendQuery (db_fmter drv) [] True q of
        Inl e \<Rightarrow> (0, Some e)
      | Inr query \<Rightarrow>
          (case queryRow drv query of
             Inl e \<Rightarrow> (0, Some e)
           | Inr num \<Rightarrow> (num, None)))"

text \<open>
  \<^verbatim>\<open>SelectQuery.ScanAndCount\<close> starts up to two goroutines and waits for both. Each goroutine
  runs its operation and then, holding the mutex, stores its error if no error is stored yet.
  The state holds the variables the goroutines share: \<^verbatim>\<open>count\<close>, \<^verbatim>\<open>firstErr\<close> and the wait
  group, as the list of goroutines that have been added and are not done. A schedule is the
  order in which the goroutines come to their end; \<^verbatim>\<open>wg.Wait()\<close> returns when the wait group is
  empty, so a schedule that leaves a goroutine unfinished yields \<open>None\<close>: the call has not
  returned.
\<close>

datatype goroutine = ScanRoutine | CountRoutine

record sac_state =
  count_var :: int
  firstErr :: "error option"
  wg :: "goroutine list"

definition storeErr :: "error option \<Rightarrow> sac_state \<Rightarrow> sac_state" where
  "storeErr e st =
     (case e of
        None \<Rightarrow> st
      | Some x \<Rightarrow> (if firstErr st = None then st\<lparr>firstErr := Some x\<rparr> else st))"

definition run_goroutine :: "driver \<Rightarrow> SelectQuery \<Rightarrow> goroutine \<Rightarrow> sac_state \<Rightarrow> sac_state" where
  "run_goroutine drv q g st =
     (case g of
        ScanRoutine \<Rightarrow> storeErr (Scan drv q) st
      | CountRoutine \<Rightarrow>
          (let r = Count drv q in storeErr (snd r) (st\<lparr>count_var := fst r\<rparr>)))"

definition finish_goroutine ::
    "driver \<Rightarrow> SelectQuery \<Rightarrow> goroutine \<Rightarrow> sac_state \<Rightarrow> sac_state" where
  "finish_goroutine drv q g st =
     (if g \<in> set (wg st) then (run_goroutine drv q g st)\<lparr>wg := removeAll g (wg st)\<rparr> else st)"

definition started :: "SelectQuery \<Rightarrow> goroutine list" where
  "started q = (if 0 \<le> sint (limit (sel q)) then [ScanRoutine] else []) @ [CountRoutine]"

definition ScanAndCount ::
    "driver \<Rightarrow> SelectQuery \<Rightarrow> goroutine list \<Rightarrow> (int \<times> error option) option" where
  "ScanAndCount drv q sched =
     (let st = fold (finish_goroutine drv q) sched
                 \<lparr>count_var = 0, firstErr = None, wg = started q\<rparr>
      in if wg st = [] then Some (count_var st, firstErr st) else None)"

text \<open>
  The claim's words for the returned error: the error of the first operation, in the order of
  the schedule, that failed.
\<close>

definition outcome :: "driver \<Rightarrow> SelectQuery \<Rightarrow> goroutine \<Rightarrow> error option" where
  "outcome drv q g = (case g of ScanRoutine \<Rightarrow> Scan drv q | CountRoutine \<Rightarrow> snd (Count drv q))"

definition first_error :: "driver \<Rightarrow> SelectQuery \<Rightarrow> goroutine list \<Rightarrow> error option" where
  "first_error drv q sched =
     (case List.map_filter (outcome drv q) (filter (\<lambda>g. g \<in> set (started q)) sched) of
        [] \<Rightarrow> None
      | e # _ \<Rightarrow> Some e)"

text \<open>A driver to evaluate examples with.\<close>

definition scan_fails :: "string \<Rightarrow> error + nat" where
  "scan_fails query = Inl (ErrExternal ''scan'')"

definition count_seven :: "string \<Rightarrow> error + int" where
  "count_seven query = Inr 7"

definition no_join_error :: "relJoin \<Rightarrow> error option" where
  "no_join_error j = None"

definition sample_driver :: driver where
  "sample_driver =
     \<lparr>db_fmter = Formatter sample_lit, scanRows = scan_fails, queryRow = count_seven,
      joinSelect = no_join_error, afterSelect = None\<rparr>"


subsection \<open>Example entities\<close>

text \<open>
  A table \<open>t\<close> with the one column \<open>id\<close>, and the table of a has-one relation \<open>author\<close> with
  the columns \<open>a\<close>, \<open>b\<close> and \<open>c\<close>; \<open>author_scoped\<close> is the relation with the explicit column list
  \<open>a\<close>, \<open>b\<close>, \<open>author_all\<close> the relation with no column list.
\<close>

definition field_named :: "string \<Rightarrow> Field" where
  "field_named n = \<lparr>Name = n, SQLName = n, UserSQLType = []\<rparr>"

definition field_map :: "Field list \<Rightarrow> string \<Rightarrow> Field option" where
  "field_map fs n = List.find (\<lambda>f. Name f = n) fs"

definition table_of :: "string \<Rightarrow> string \<Rightarrow> string list \<Rightarrow> Table" where
  "table_of name al cols =
     \<lparr>Alias = al, SQLNameForSelects = name, Fields = map field_named cols,
      FieldMap = field_map (map field_named cols)\<rparr>"

definition author_scoped :: relJoin where
  "author_scoped =
     RelJoin HasOneRelation (table_of ''authors'' ''author'' [''a'', ''b'', ''c'']) ''author''
       [UnsafeIdent ''a'', UnsafeIdent ''b''] ''author.id = t.author_id'' []"

definition author_all :: relJoin where
  "author_all =
     RelJoin HasOneRelation (table_of ''authors'' ''author'' [''a'', ''b'', ''c'']) ''author''
       [] ''author.id = t.author_id'' []"

definition select_with :: "relJoin \<Rightarrow> SelectQuery" where
  "select_with j =
     upd (\<lambda>q. q\<lparr>table := Some (table_of ''t'' ''t'' [''id'']), tableModel := Some [j]\<rparr>)
       NewSelectQuery"


subsection \<open>Words of the claims about select rendering\<close>

text \<open>A rendering result with a text put in front: how a result for the empty buffer relates
  to the result for a buffer \<open>b\<close>.\<close>

definition text_onto :: "string \<Rightarrow> error + string \<Rightarrow> error + string" where
  "text_onto b r = (case r of Inl e \<Rightarrow> Inl e | Inr t \<Rightarrow> Inr (b @ t))"

text \<open>The query without its ORDER BY, LIMIT, OFFSET and FOR clauses.\<close>

definition strip_tail :: "SelectQuery \<Rightarrow> SelectQuery" where
  "strip_tail =
     upd (\<lambda>q. q\<lparr>q_order := [], limit := 0, offset := 0, selFor := \<lparr>Query = [], Args = None\<rparr>\<rparr>)"

text \<open>
  The case in which \<^verbatim>\<open>SelectQuery.appendColumns\<close> abbreviates the column list in placeholder
  mode: no explicit columns and a bound table with more than ten fields.
\<close>

definition abbreviates :: "SelectFields \<Rightarrow> bool" where
  "abbreviates q =
     (columns q = [] \<and> (case table q of None \<Rightarrow> False | Some t \<Rightarrow> length (Fields t) > 10))"

text \<open>The literal formatter that writes every value as the placeholder token.\<close>

definition mark :: "val \<Rightarrow> string" where
  "mark v = ''?''"

text \<open>
  A query is \<open>plain\<close> when neither it nor a union member abbreviates its column list, and the
  WITH clauses (a parameter of the model) are written alike by the placeholder formatter and
  by the literal formatter that writes \<open>?\<close> for every value.
\<close>

fun plain :: "SelectQuery \<Rightarrow> bool"
and plain_unions :: "(string \<times> SelectQuery) list \<Rightarrow> bool" where
  "plain (SelectQuery q us) =
     (\<not> abbreviates q \<and> withText q NopFormatter = withText q (Formatter mark) \<and> plain_unions us)"
| "plain_unions [] = True"
| "plain_unions ((expr, q) # us) = (plain q \<and> plain_unions us)"

text \<open>A table with eleven columns, bound to a new query.\<close>

definition wide_select :: SelectQuery where
  "wide_select =
     upd (\<lambda>q. q\<lparr>table := Some (table_of ''wide'' ''w''
                  [''c1'', ''c2'', ''c3'', ''c4'', ''c5'', ''c6'', ''c7'', ''c8'', ''c9'',
                   ''c10'', ''c11''])\<rparr>)
       NewSelectQuery"


text \<open>
  The example of the spec, section 8: a select on the entity \<open>t\<close> with \<^verbatim>\<open>Where("id = ?", 5)\<close>
  and \<^verbatim>\<open>Limit(10)\<close>.
\<close>

definition t_select :: SelectQuery where
  "t_select =
     apply_calls [Call_Where ''id = ?'' [VInt 5], Call_Limit 10]
       (upd (\<lambda>q. q\<lparr>table := Some (table_of ''t'' ''t'' [''id''])\<rparr>) NewSelectQuery)"


text \<open>
  Two rendering results in sequence: the second text after the first, the first error if one
  of them failed.
\<close>

definition seq_text :: "error + string \<Rightarrow> error + string \<Rightarrow> error + string" where
  "seq_text r1 r2 = and_then r1 (\<lambda>t. text_onto t r2)"

text \<open>
  The parts of a rendered select, for the amended C3. \<open>paren\<close> is the parenthesis that opens a
  query with unions, \<open>union_text\<close> the closing parenthesis and the union members.
  \<open>select_parts\<close> puts a select together from the text \<open>cols\<close> that stands for the column list
  and the text \<open>tail\<close> that stands for ORDER BY, LIMIT, OFFSET and FOR: the WITH clauses,
  \<open>SELECT\<close>, the DISTINCT clause, \<open>cols\<close>, the clauses from FROM to HAVING, \<open>tail\<close>, the unions.
\<close>

definition paren :: "(string \<times> SelectQuery) list \<Rightarrow> string" where
  "paren us = (if us \<noteq> [] then ''('' else [])"

definition union_text :: "fmter \<Rightarrow> (string \<times> SelectQuery) list \<Rightarrow> error + string" where
  "union_text fmter us = (if us \<noteq> [] then appendUnions fmter '')'' us else Inr [])"

definition select_parts ::
    "fmter \<Rightarrow> SelectQuery \<Rightarrow> error + string \<Rightarrow> error + string \<Rightarrow> error + string" where
  "select_parts fmter q cols tail =
     seq_text (appendWith fmter [] (sel q))
       (text_onto ''SELECT ''
          (seq_text (appendDistinct fmter [] (sel q))
             (seq_text cols
                (seq_text (appendClauses fmter [] (sel q))
                   (seq_text tail (union_text fmter (union q)))))))"

text \<open>A buffer and the position \<^verbatim>\<open>start\<close> in it, moved behind a text \<open>p\<close>.\<close>

definition shift :: "string \<Rightarrow> string \<times> nat \<Rightarrow> string \<times> nat" where
  "shift p st = (p @ fst st, length p + snd st)"

text \<open>A grouped query with a limit: \<^verbatim>\<open>Group("a")\<close>, \<^verbatim>\<open>Limit(10)\<close> on a new query.\<close>

definition grouped_select :: SelectQuery where
  "grouped_select = apply_calls [Call_Group [''a''], Call_Limit 10] NewSelectQuery"


text \<open>
  The query of the repository's test \<^verbatim>\<open>testQueryHook\<close>:
  \<^verbatim>\<open>ColumnExpr("1").Where("? = ?", "foo", "bar")\<close> on a new query.
\<close>

definition hook_select :: SelectQuery where
  "hook_select =
     apply_calls [Call_ColumnExpr ''1'' [], Call_Where ''? = ?'' [VStr ''foo'', VStr ''bar'']]
       NewSelectQuery"


section \<open>Properties\<close>

subsection \<open>The rendering loops as joins\<close>

lemma join_sep_Cons:
  "join_sep sep (x # xs) = x @ (if xs = [] then [] else sep @ join_sep sep xs)"
  by (cases xs) simp_all

lemma appendKeyIdents_eq:
  "appendKeyIdents fmter b i ks =
     b @ (if i > 0 \<and> ks \<noteq> [] then '', '' else []) @ join_sep '', '' ks"
proof (induction ks arbitrary: b i)
  case Nil
  show ?case by simp
next
  case (Cons k ks)
  show ?case
    by (simp add: Cons.IH AppendIdent_def join_sep_Cons)
qed

lemma appendKeyMarks_eq:
  "appendKeyMarks b i ks =
     b @ (if i > 0 \<and> ks \<noteq> [] then '', '' else []) @ join_sep '', '' (map (\<lambda>_. ''?'') ks)"
proof (induction ks arbitrary: b i)
  case Nil
  show ?case by simp
next
  case (Cons k ks)
  show ?case
    by (simp add: Cons.IH join_sep_Cons)
qed

lemma appendRowValues_eq:
  "appendRowValues (Formatter lit) b el j ks =
     b @ (if j > 0 \<and> ks \<noteq> [] then '', '' else [])
       @ join_sep '', '' (map (\<lambda>k. lit (map_index el k)) ks)"
proof (induction ks arbitrary: b j)
  case Nil
  show ?case by simp
next
  case (Cons k ks)
  show ?case
    by (simp add: Cons.IH Append_def join_sep_Cons)
qed

lemma appendRows_eq:
  "appendRows (Formatter lit) vr ks b i els =
     b @ (if i > 0 \<and> els \<noteq> [] then ''), '' @ openRow vr else [])
       @ join_sep (''), '' @ openRow vr)
           (map (\<lambda>el. join_sep '', '' (map (\<lambda>k. lit (map_index el k)) ks)) els)"
proof (induction els arbitrary: b i)
  case Nil
  show ?case by simp
next
  case (Cons el els)
  show ?case
    by (simp add: Cons.IH appendRowValues_eq join_sep_Cons)
qed


subsection \<open>Dynamic rows: columns and values\<close>

lemma newMapSliceModel_sel [simp]:
  "db_ValuesRow (newMapSliceModel db ptr) = db"
  "slicePtr (newMapSliceModel db ptr) = ptr"
  "keys (newMapSliceModel db ptr) = None"
  by (simp_all add: newMapSliceModel_def)

lemma initKeys_new:
  "initKeys (newMapSliceModel db (first # rest)) =
     Inr (newMapSliceModel db (first # rest)\<lparr>keys := Some (Mapping.ordered_keys first)\<rparr>)"
  by (simp add: initKeys_def)

lemma initKeys_empty: "initKeys (newMapSliceModel db []) = Inl ErrMapSliceEmpty"
  by (simp add: initKeys_def)

lemma appendValues_mapSlice_nop:
  "appendValues_mapSlice NopFormatter b (newMapSliceModel db (first # rest)) =
     Inr (b @ ''VALUES '' @ openRow db
            @ join_sep '', '' (map (\<lambda>_. ''?'') (Mapping.ordered_keys first)),
          newMapSliceModel db (first # rest)\<lparr>keys := Some (Mapping.ordered_keys first)\<rparr>)"
  by (simp add: appendValues_mapSlice_def initKeys_new IsNopFormatter_def appendKeyMarks_eq)

text \<open>
  C4, as stated, fails: the claim takes the columns from the first non-empty row, the code from
  \<^verbatim>\<open>slice[0]\<close>. For the slice \<open>[{}, {a: 1}]\<close> the first non-empty row has the key \<open>a\<close>, and
  the code renders an empty column list.
\<close>

theorem C4_first_row_counterexample:
  "firstNonEmptyRow [Mapping.empty, Mapping.of_alist [(''a'', VInt 1)]]
     = Some (Mapping.of_alist [(''a'', VInt 1)])
   \<and> Mapping.ordered_keys (Mapping.of_alist [(''a'', VInt 1)]) = [''a'']
   \<and> map_sum id fst
        (appendColumns_mapSlice NopFormatter []
          (newMapSliceModel False [Mapping.empty, Mapping.of_alist [(''a'', VInt 1)]]))
     = Inr []"
  by (simp add: firstNonEmptyRow_def nonEmptyRow_def keys_of_alist ordered_keys_def
        appendColumns_mapSlice_def initKeys_def newMapSliceModel_def)

lemma mapSlice_columns_new:
  "appendColumns_mapSlice fmter b (newMapSliceModel db (first # rest)) =
     Inr (b @ join_sep '', '' (Mapping.ordered_keys first),
          newMapSliceModel db (first # rest)\<lparr>keys := Some (Mapping.ordered_keys first)\<rparr>)"
  by (simp add: appendColumns_mapSlice_def initKeys_new appendKeyIdents_eq)

lemma mapSlice_values_new:
  "appendValues_mapSlice (Formatter lit) b (newMapSliceModel db (first # rest)) =
     Inr (b @ ''VALUES '' @ openRow db
            @ join_sep (''), '' @ openRow db)
                (map (\<lambda>el. join_sep '', ''
                        (map (\<lambda>k. lit (map_index el k)) (Mapping.ordered_keys first)))
                   (first # rest))
            @ '')'',
          newMapSliceModel db (first # rest)\<lparr>keys := Some (Mapping.ordered_keys first)\<rparr>)"
  by (simp add: appendValues_mapSlice_def initKeys_new IsNopFormatter_def appendRows_eq)

lemma mapSlice_empty:
  "appendColumns_mapSlice fmter b (newMapSliceModel db []) = Inl ErrMapSliceEmpty"
  "appendValues_mapSlice fmter b (newMapSliceModel db []) = Inl ErrMapSliceEmpty"
  by (simp_all add: appendColumns_mapSlice_def appendValues_mapSlice_def initKeys_empty)

text \<open>
  C4, amended: for a dynamic-row source whose slice is \<open>first # rest\<close>, the column list is the
  sorted key list of the first row \<^verbatim>\<open>slice[0]\<close> (empty or not), written as identifiers
  separated by a comma and a space; in literal mode every row's values are looked up by these
  keys in this order (a missing key reads as nil), the rows separated by \<open>), (\<close> (or
  \<open>), ROW(\<close>); for an empty slice both renderings fail with the "map slice is empty" error.
\<close>

theorem C4_columns_from_first_row:
  "appendColumns_mapSlice fmter b (newMapSliceModel db (first # rest)) =
     Inr (b @ join_sep '', '' (Mapping.ordered_keys first),
          newMapSliceModel db (first # rest)\<lparr>keys := Some (Mapping.ordered_keys first)\<rparr>)
   \<and> sorted (Mapping.ordered_keys first) \<and> distinct (Mapping.ordered_keys first)
   \<and> appendValues_mapSlice (Formatter lit) b (newMapSliceModel db (first # rest)) =
     Inr (b @ ''VALUES '' @ openRow db
            @ join_sep (''), '' @ openRow db)
                (map (\<lambda>el. join_sep '', ''
                        (map (\<lambda>k. lit (map_index el k)) (Mapping.ordered_keys first)))
                   (first # rest))
            @ '')'',
          newMapSliceModel db (first # rest)\<lparr>keys := Some (Mapping.ordered_keys first)\<rparr>)
   \<and> appendColumns_mapSlice fmter b (newMapSliceModel db []) = Inl ErrMapSliceEmpty
   \<and> appendValues_mapSlice fmter b (newMapSliceModel db []) = Inl ErrMapSliceEmpty"
  using mapSlice_columns_new [of fmter b db first rest]
    mapSlice_values_new [of lit b db first rest] mapSlice_empty [of fmter b db]
  by simp

text \<open>
  The spec's example: the rows \<open>{a: 1, b: 2}\<close>, \<open>{a: 3, b: 4}\<close> render the columns \<open>a, b\<close> and
  \<open>VALUES (1, 2), (3, 4)\<close>.
\<close>

lemma mapSlice_example:
  "map_sum id fst
     (appendColumns_mapSlice (Formatter sample_lit) []
        (newMapSliceModel False
           [Mapping.of_alist [(''b'', VInt 2), (''a'', VInt 1)],
            Mapping.of_alist [(''a'', VInt 3), (''b'', VInt 4)]])) = Inr ''a, b''
   \<and> map_sum id fst
     (appendValues_mapSlice (Formatter sample_lit) []
        (newMapSliceModel False
           [Mapping.of_alist [(''b'', VInt 2), (''a'', VInt 1)],
            Mapping.of_alist [(''a'', VInt 3), (''b'', VInt 4)]])) = Inr ''VALUES (1, 2), (3, 4)''"
  by (simp add: mapSlice_columns_new mapSlice_values_new ordered_keys_def keys_of_alist
        map_index_def lookup_of_alist sample_lit_def AppendInt_def nat_digits.simps openRow_def)

text \<open>
  C5: in placeholder mode the encoder returns right after the placeholders of one row, before
  the closing parenthesis that the literal branch appends. For the single row \<open>{a: 1, b: 2}\<close>
  the placeholder text is \<open>VALUES (?, ?\<close>, with the parenthesis left open.
\<close>

theorem C5_placeholder_values_unclosed:
  "map_sum id fst
     (appendValues_mapSlice NopFormatter []
        (newMapSliceModel False [Mapping.of_alist [(''a'', VInt 1), (''b'', VInt 2)]]))
     = Inr ''VALUES (?, ?''"
  by (simp add: appendValues_mapSlice_nop ordered_keys_def keys_of_alist openRow_def)


subsection \<open>Typed rows: the cast suffix\<close>

lemma appendValues_eq:
  "appendValues mv fmter b i fs v =
     Inr (b @ (if i > 0 \<and> fs \<noteq> [] then '', '' else [])
            @ join_sep '', '' (map (field_text mv fmter v) fs))"
proof (induction fs arbitrary: b i)
  case Nil
  show ?case by simp
next
  case (Cons f fs)
  have step: "appendValues mv fmter b i (f # fs) v =
      appendValues mv fmter ((if i > 0 then b @ '', '' else b) @ field_text mv fmter v f)
        (Suc i) fs v"
    by (cases fmter)
       (simp_all add: Let_def field_text_def AppendQuery_node_def FormatQuery_def
          AppendIdent_def AppendValue_def Append_def IsNopFormatter_def split: option.splits)
  show ?case
    unfolding step by (simp add: Cons.IH join_sep_Cons)
qed

text \<open>
  C10, as stated, fails in both directions. A field that declares no user SQL type (the empty
  string) and has no custom value is still followed by the cast marker: the placeholder text
  is \<open>?::\<close>. A field that declares the type \<open>BIGINT\<close> but has a custom value expression gets no
  cast at all.
\<close>

theorem C10_cast_counterexample:
  "appendValues no_values NopFormatter [] 0
     [\<lparr>Name = ''id'', SQLName = ''id'', UserSQLType = []\<rparr>] nil_strct = Inr ''?::''
   \<and> appendValues default_values NopFormatter [] 0
     [\<lparr>Name = ''id'', SQLName = ''id'', UserSQLType = ''BIGINT''\<rparr>] nil_strct = Inr ''DEFAULT''"
  by (simp add: no_values_def default_values_def IsNopFormatter_def SafeQuery_def
        AppendQuery_node_def FormatQuery_def)

text \<open>
  C10, amended: for every typed row, the values of the fields are written in field order,
  separated by a comma and a space. A field for which the query holds a custom value expression
  is written as that expression alone, with no cast. Every other field is written as its value
  (the placeholder in placeholder mode) followed by \<open>::\<close> and the field's user SQL type,
  whether or not that type is empty.
\<close>

theorem C10_cast_always_appended:
  "appendValues mv fmter b 0 fs v = Inr (b @ join_sep '', '' (map (field_text mv fmter v) fs))
   \<and> field_text no_values fmter v f = Append fmter [] (v (Name f)) @ ''::'' @ UserSQLType f
   \<and> field_text default_values fmter v \<lparr>Name = ''id'', SQLName = sn, UserSQLType = ty\<rparr>
       = ''DEFAULT''"
  by (simp add: appendValues_eq field_text_def no_values_def default_values_def SafeQuery_def)

subsection \<open>What rendering a values query changes\<close>

lemma initKeys_idem: "initKeys m = Inr m1 \<Longrightarrow> initKeys m1 = Inr m1"
  by (auto simp: initKeys_def split: option.splits list.splits)

lemma appendValues_mapSlice_state:
  "appendValues_mapSlice fmter b m = Inr (t, m1) \<Longrightarrow> initKeys m = Inr m1"
  by (auto simp: appendValues_mapSlice_def Let_def split: sum.splits if_splits)

lemma appendValues_mapSlice_cached:
  "initKeys m = Inr m1 \<Longrightarrow>
     map_sum id fst (appendValues_mapSlice fmter b m1) = map_sum id fst (appendValues_mapSlice fmter b m)"
  by (simp add: appendValues_mapSlice_def initKeys_idem)

lemma cached_mapSlice_ok:
  "initKeys m = Inr m1 \<Longrightarrow> cached (Some (MapSliceModel m)) = Some (MapSliceModel m1)"
  by (simp add: cached_def)

lemma AppendQuery_values_frame:
  "snd (AppendQuery_values fmter b q) = q
   \<or> snd (AppendQuery_values fmter b q) = q\<lparr>model := cached (model q)\<rparr>"
proof (cases "err q")
  case (Some e)
  then show ?thesis
    by (simp add: AppendQuery_values_def)
next
  case None
  show ?thesis
  proof (cases "model q")
    case none: None
    with None show ?thesis by (simp add: AppendQuery_values_def)
  next
    case (Some mdl)
    show ?thesis
    proof (cases mdl)
      case (TableModel tm)
      with None Some show ?thesis
        by (simp add: AppendQuery_values_def split: sum.splits)
    next
      case (MapSliceModel m)
      show ?thesis
      proof (cases "appendValues_mapSlice fmter b m")
        case (Inl e)
        with None Some MapSliceModel show ?thesis
          by (simp add: AppendQuery_values_def)
      next
        case (Inr r)
        obtain t m1 where r: "r = (t, m1)" by (cases r)
        with Inr have "initKeys m = Inr m1"
          by (simp add: appendValues_mapSlice_state)
        with None Some MapSliceModel Inr r show ?thesis
          by (simp add: AppendQuery_values_def cached_mapSlice_ok)
      qed
    next
      case OtherModel
      with None Some show ?thesis by (simp add: AppendQuery_values_def)
    qed
  qed
qed

lemma AppendQuery_values_cached:
  "fst (AppendQuery_values fmter b (q\<lparr>model := cached (model q)\<rparr>))
     = fst (AppendQuery_values fmter b q)"
proof (cases "err q")
  case (Some e)
  then show ?thesis by (simp add: AppendQuery_values_def)
next
  case noerr: None
  show ?thesis
  proof (cases "model q")
    case None
    with noerr show ?thesis by (simp add: AppendQuery_values_def cached_def)
  next
    case (Some mdl)
    show ?thesis
    proof (cases mdl)
      case (TableModel tm)
      with Some have "cached (model q) = model q"
        by (simp add: cached_def)
      then have "q\<lparr>model := cached (model q)\<rparr> = q"
        by simp
      then show ?thesis by simp
    next
      case (MapSliceModel m)
      show ?thesis
      proof (cases "initKeys m")
        case (Inl e)
        with Some MapSliceModel have "cached (model q) = model q"
          by (simp add: cached_def)
        then have "q\<lparr>model := cached (model q)\<rparr> = q"
          by simp
        then show ?thesis by simp
      next
        case (Inr m1)
        have "map_sum id fst (appendValues_mapSlice fmter b m1)
                = map_sum id fst (appendValues_mapSlice fmter b m)"
          by (rule appendValues_mapSlice_cached [OF Inr])
        then have "(case appendValues_mapSlice fmter b m1 of Inl e \<Rightarrow> Inl e | Inr (t, _) \<Rightarrow> Inr t)
                = (case appendValues_mapSlice fmter b m of Inl e \<Rightarrow> Inl e | Inr (t, _) \<Rightarrow> Inr t)"
          by (auto split: sum.splits)
        with noerr Some MapSliceModel Inr show ?thesis
          by (auto simp: AppendQuery_values_def cached_def split: sum.splits)
      qed
    next
      case OtherModel
      with noerr Some show ?thesis by (simp add: AppendQuery_values_def cached_def)
    qed
  qed
qed

lemma AppendColumns_values_err: "err (snd (AppendColumns_values fmter b q)) = err q"
  by (simp add: AppendColumns_values_def Let_def
        split: option.splits model.splits sum.splits prod.splits)

lemma AppendArg_err:
  "err (snd (AppendArg fmter b name q)) =
     (case err q of
        Some e \<Rightarrow> Some e
      | None \<Rightarrow>
          (if name = ''Columns''
           then (case fst (AppendColumns_values fmter b q) of Inl e \<Rightarrow> Some e | Inr _ \<Rightarrow> None)
           else None))"
proof (cases "name = ''Columns''")
  case False
  then show ?thesis by (simp add: AppendArg_def split: option.splits)
next
  case True
  obtain r q1 where r: "AppendColumns_values fmter b q = (r, q1)"
    by (cases "AppendColumns_values fmter b q")
  have q1: "err q1 = err q"
    using AppendColumns_values_err [of fmter b q] r by simp
  show ?thesis
    using True r q1 by (cases r) (simp_all add: AppendArg_def setErr_def split: option.splits)
qed

subsection \<open>The sticky error\<close>

lemma err_fold:
  "(\<And>x q. err (f x q) = err q) \<Longrightarrow> err (fold f xs (q :: SelectFields)) = err q"
  by (induction xs arbitrary: q) simp_all

lemma err_apply_call:
  "err (sel q) \<noteq> None \<Longrightarrow> err (sel (apply_call c q)) \<noteq> None"
  by (cases c)
     (simp_all add: upd_def Distinct_def DistinctOn_def Table_def TableExpr_def
        ModelTableExpr_def Column_def ColumnExpr_def Where_def WhereOr_def Group_def
        GroupExpr_def Having_def Order_def OrderExpr_def Limit_def Offset_def For_def
        addUnion_def Join_def joinOn_def addTable_def addColumn_def addWhere_def err_fold)

lemma err_apply_calls:
  "err (sel q) \<noteq> None \<Longrightarrow> err (sel (apply_calls cs q)) \<noteq> None"
proof (induction cs arbitrary: q)
  case Nil
  then show ?case by simp
next
  case (Cons c cs)
  from Cons.prems have "err (sel (apply_call c q)) \<noteq> None"
    by (rule err_apply_call)
  then have "err (sel (apply_calls cs (apply_call c q))) \<noteq> None"
    by (rule Cons.IH)
  then show ?case by simp
qed

lemma AppendQuery_err:
  "err (sel q) = Some e \<Longrightarrow> AppendQuery fmter b q = Inl e"
  by (cases q) (simp add: AppendQuery_def)




subsection \<open>ScanAndCount\<close>

lemma removeAll_as_filter: "removeAll g xs = filter (\<lambda>x. x \<noteq> g) xs"
  by (induction xs) auto

lemma finish_wg:
  "wg (finish_goroutine drv q g st) = filter (\<lambda>x. x \<noteq> g) (wg st)"
proof (cases "g \<in> set (wg st)")
  case True
  then show ?thesis by (simp add: finish_goroutine_def removeAll_as_filter)
next
  case False
  then have "filter (\<lambda>x. x \<noteq> g) (wg st) = wg st"
    by (simp add: filter_id_conv) blast
  with False show ?thesis by (simp add: finish_goroutine_def)
qed

lemma run_firstErr:
  "firstErr (run_goroutine drv q g st) =
     (case firstErr st of Some e \<Rightarrow> Some e | None \<Rightarrow> outcome drv q g)"
  by (cases g)
     (auto simp: run_goroutine_def storeErr_def outcome_def Let_def split: option.splits)

lemma finish_firstErr:
  "firstErr (finish_goroutine drv q g st) =
     (case firstErr st of
        Some e \<Rightarrow> Some e
      | None \<Rightarrow> (if g \<in> set (wg st) then outcome drv q g else None))"
  by (simp add: finish_goroutine_def run_firstErr split: option.splits)

lemma run_count:
  "count_var (run_goroutine drv q g st) =
     (if g = CountRoutine then fst (Count drv q) else count_var st)"
  by (cases g)
     (auto simp: run_goroutine_def storeErr_def Let_def split: option.splits)

lemma finish_count:
  "count_var (finish_goroutine drv q g st) =
     (if g = CountRoutine \<and> g \<in> set (wg st) then fst (Count drv q) else count_var st)"
  by (simp add: finish_goroutine_def run_count)

lemma fold_wg:
  "wg (fold (finish_goroutine drv q) sched st) = filter (\<lambda>x. x \<notin> set sched) (wg st)"
proof (induction sched arbitrary: st)
  case Nil
  show ?case by simp
next
  case (Cons g gs)
  show ?case
    by (simp add: Cons.IH finish_wg)
qed

lemma fold_count:
  "count_var (fold (finish_goroutine drv q) sched st) =
     (if CountRoutine \<in> set sched \<and> CountRoutine \<in> set (wg st)
      then fst (Count drv q) else count_var st)"
proof (induction sched arbitrary: st)
  case Nil
  show ?case by simp
next
  case (Cons g gs)
  show ?case
    by (auto simp: Cons.IH finish_wg finish_count)
qed

lemma map_filter_drop_failed:
  "f g = None \<Longrightarrow>
     List.map_filter f (filter (\<lambda>x. x \<in> set w \<and> x \<noteq> g) gs)
       = List.map_filter f (filter (\<lambda>x. x \<in> set w) gs)"
  by (induction gs) (auto simp: List.map_filter_simps split: option.splits)

lemma fold_firstErr:
  "firstErr (fold (finish_goroutine drv q) sched st) =
     (case firstErr st of
        Some e \<Rightarrow> Some e
      | None \<Rightarrow>
          (case List.map_filter (outcome drv q) (filter (\<lambda>g. g \<in> set (wg st)) sched) of
             [] \<Rightarrow> None
           | e # _ \<Rightarrow> Some e))"
proof (induction sched arbitrary: st)
  case Nil
  show ?case by (simp add: List.map_filter_simps split: option.splits)
next
  case (Cons g gs)
  show ?case
  proof (cases "firstErr st")
    case (Some e)
    then show ?thesis by (simp add: Cons.IH finish_firstErr)
  next
    case None
    show ?thesis
    proof (cases "g \<in> set (wg st)")
      case False
      then have "finish_goroutine drv q g st = st"
        by (simp add: finish_goroutine_def)
      with None False show ?thesis by (simp add: Cons.IH)
    next
      case True
      show ?thesis
      proof (cases "outcome drv q g")
        case (Some e)
        with None True show ?thesis
          by (simp add: Cons.IH finish_firstErr List.map_filter_simps)
      next
        case no: None
        with None True show ?thesis
          by (simp add: Cons.IH finish_firstErr finish_wg List.map_filter_simps
                map_filter_drop_failed)
      qed
    qed
  qed
qed

lemma CountRoutine_started: "CountRoutine \<in> set (started q)"
  by (simp add: started_def)

lemma ScanAndCount_result:
  "(set (started q) \<subseteq> set sched \<longrightarrow>
      ScanAndCount drv q sched = Some (fst (Count drv q), first_error drv q sched))
   \<and> (\<not> set (started q) \<subseteq> set sched \<longrightarrow> ScanAndCount drv q sched = None)"
proof -
  let ?st = "fold (finish_goroutine drv q) sched \<lparr>count_var = 0, firstErr = None, wg = started q\<rparr>"
  have w: "wg ?st = filter (\<lambda>x. x \<notin> set sched) (started q)"
    by (simp add: fold_wg)
  have e: "firstErr ?st = first_error drv q sched"
    by (simp add: fold_firstErr first_error_def)
  have c: "count_var ?st = (if CountRoutine \<in> set sched then fst (Count drv q) else 0)"
    by (simp add: fold_count CountRoutine_started)
  have empty: "wg ?st = [] \<longleftrightarrow> set (started q) \<subseteq> set sched"
    unfolding w by (auto simp: filter_empty_conv)
  show ?thesis
  proof (cases "set (started q) \<subseteq> set sched")
    case True
    then have "CountRoutine \<in> set sched"
      using CountRoutine_started by blast
    with True empty e c show ?thesis
      by (simp add: ScanAndCount_def Let_def)
  next
    case False
    with empty show ?thesis
      by (simp add: ScanAndCount_def Let_def)
  qed
qed



lemma appendQuery_new:
  "appendQuery fmter [] cnt NewSelectQuery = Inr (if cnt then ''SELECT count(*)'' else ''SELECT *'')"
  by (simp add: NewSelectQuery_def appendSelect_def cteCount_def appendWith_def no_with_def
        and_then_def appendDistinct_def appendColumns_select_def appendOwnColumns_def
        forEachHasOneJoin_def TrimSuffix_def appendClauses_def hasTables_def
        modelHasTableName_def IsZero_def appendWhere_def appendTail_def appendOrder_def)

lemma Count_sample: "Count sample_driver NewSelectQuery = (7, None)"
  by (simp add: Count_def appendQuery_new sample_driver_def count_seven_def)

lemma Scan_sample: "Scan sample_driver NewSelectQuery = Some (ErrExternal ''scan'')"
  by (simp add: Scan_def AppendQuery_def appendQuery_new sample_driver_def scan_fails_def)

lemma started_new: "started NewSelectQuery = [ScanRoutine, CountRoutine]"
  by (simp add: started_def NewSelectQuery_def)


lemma first_of_single_gen:
  "(case List.map_filter f (filter (\<lambda>x. x = g) gs) of [] \<Rightarrow> None | e # _ \<Rightarrow> Some e)
     = (if g \<in> set gs then f g else None)"
  by (induction gs) (auto simp: List.map_filter_simps split: option.splits)

lemma first_of_single:
  "g \<in> set gs \<Longrightarrow>
     (case List.map_filter f (filter (\<lambda>x. x = g) gs) of [] \<Rightarrow> None | e # _ \<Rightarrow> Some e) = f g"
  by (simp add: first_of_single_gen)

lemma Count_driver:
  "Count (drv\<lparr>scanRows := s, joinSelect := j, afterSelect := a\<rparr>) q = Count drv q"
  by (simp add: Count_def split: sum.splits)


lemma int32_minus_one: "sint (ucast (- 1 :: 64 word) :: 32 word) = - 1"
  by code_simp

lemma limit_minus_one: "sint (limit (sel (Limit (- 1) NewSelectQuery))) = - 1"
  by (simp add: Limit_def upd_def NewSelectQuery_def int32_minus_one)

lemma Count_limit_minus_one: "Count sample_driver (Limit (- 1) NewSelectQuery) = (7, None)"
  by (simp add: Count_def sample_driver_def count_seven_def Limit_def upd_def
        NewSelectQuery_def appendSelect_def cteCount_def appendWith_def no_with_def
        and_then_def appendDistinct_def appendClauses_def hasTables_def
        modelHasTableName_def IsZero_def appendWhere_def forEachHasOneJoin_def)

lemma limit_new: "sint (limit (sel NewSelectQuery)) = 0"
  by (simp add: NewSelectQuery_def)


subsection \<open>Columns of has-one relations\<close>

lemma appendJoinFields_eq:
  "appendJoinFields j fmter b i fs =
     b @ (if i > 0 \<and> fs \<noteq> [] then '', '' else [])
       @ join_sep '', ''
           (map (\<lambda>f. JoinAlias j @ ''.'' @ SQLName f @ '' AS '' @ JoinAlias j @ ''__'' @ Name f) fs)"
proof (induction fs arbitrary: b i)
  case Nil
  show ?case by simp
next
  case (Cons f fs)
  show ?case
    by (simp add: Cons.IH join_sep_Cons appendAlias_def appendAliasColumn_def)
qed

lemma scoped_columns_example:
  "appendColumns_select (Formatter sample_lit) [] (sel (select_with author_scoped))
     = Inr ''t.id, a, b''"
  by (simp add: select_with_def upd_def NewSelectQuery_def appendColumns_select_def
        appendOwnColumns_def table_of_def field_named_def IsNopFormatter_def and_then_def
        forEachHasOneJoin_def author_scoped_def hasOneColumnsStep_def appendHasOneColumns_def
        UnsafeIdent_def AppendQuery_node_def AppendIdent_def TrimSuffix_def Let_def)

lemma all_columns_example:
  "appendColumns_select (Formatter sample_lit) [] (sel (select_with author_all))
     = Inr ''t.id, author.a AS author__a, author.b AS author__b, author.c AS author__c''"
  by (simp add: select_with_def upd_def NewSelectQuery_def appendColumns_select_def
        appendOwnColumns_def table_of_def field_named_def IsNopFormatter_def and_then_def
        forEachHasOneJoin_def author_all_def hasOneColumnsStep_def appendHasOneColumns_def
        appendAlias_def appendAliasColumn_def TrimSuffix_def Let_def)

text \<open>
  C8: for the has-one relation \<open>author\<close> with the explicit column list \<open>a\<close>, \<open>b\<close> the code
  writes the scoped columns as they are, \<open>a, b\<close>, and not
  \<open>author.a AS author__a, author.b AS author__b\<close>; only the branch for a relation with no
  column list writes the alias and the \<open>AS\<close> name.
\<close>

theorem C8_scoped_columns_not_aliased:
  "appendColumns_select (Formatter sample_lit) [] (sel (select_with author_scoped))
     = Inr ''t.id, a, b''
   \<and> appendColumns_select (Formatter sample_lit) [] (sel (select_with author_all))
     = Inr ''t.id, author.a AS author__a, author.b AS author__b, author.c AS author__c''"
  by (simp add: scoped_columns_example all_columns_example)

subsection \<open>Placeholder mode and literal mode\<close>

lemma Append_mark: "Append NopFormatter b v = Append (Formatter mark) b v"
  by (simp add: Append_def mark_def)

lemma format_args_mark: "format_args NopFormatter t args = format_args (Formatter mark) t args"
  by (induction t arbitrary: args) (simp_all add: Append_mark split: list.splits)

lemma format_args_nop: "format_args NopFormatter t args = t"
  by (induction t arbitrary: args) (simp_all add: Append_def split: list.splits)

lemma node_mark:
  "AppendQuery_node NopFormatter b n = AppendQuery_node (Formatter mark) b n"
  by (simp add: AppendQuery_node_def FormatQuery_def AppendIdent_def format_args_mark
        split: option.splits)

lemma appendNodes_mark:
  "appendNodes NopFormatter sep b i fs = appendNodes (Formatter mark) sep b i fs"
  by (induction fs arbitrary: b i) (simp_all add: node_mark split: sum.splits)

lemma appendHaving_mark:
  "appendHaving NopFormatter b i fs = appendHaving (Formatter mark) b i fs"
  by (induction fs arbitrary: b i) (simp_all add: node_mark split: sum.splits)

lemma appendSepNodes_mark:
  "appendSepNodes NopFormatter b i ws = appendSepNodes (Formatter mark) b i ws"
  by (induction ws arbitrary: b i) (simp_all add: node_mark split: sum.splits)

lemma appendJoins_mark:
  "appendJoins NopFormatter b js = appendJoins (Formatter mark) b js"
  by (induction js arbitrary: b)
     (simp_all add: AppendQuery_join_def node_mark appendSepNodes_mark split: sum.splits)

lemma forEach_sim:
  "(\<And>j s. fn1 j (h s) = map_sum id h (fn2 j s)) \<Longrightarrow>
     forEachHasOneJoin_rec fn1 js (h s) = map_sum id h (forEachHasOneJoin_rec fn2 js s)"
proof (induction fn2 js s rule: forEachHasOneJoin_rec.induct)
  case (1 fn s)
  show ?case by simp
next
  case (2 fn ty tbl al cols cond sub js s)
  note sim = "2.prems"
  show ?case
  proof (cases "ty = HasOneRelation \<or> ty = BelongsToRelation")
    case False
    with 2 show ?thesis by simp
  next
    case True
    show ?thesis
    proof (cases "fn (RelJoin ty tbl al cols cond sub) s")
      case (Inl e)
      with True sim [of "RelJoin ty tbl al cols cond sub" s] show ?thesis
        by simp
    next
      case (Inr s1)
      note s1 = Inr
      have sub: "forEachHasOneJoin_rec fn1 sub (h s1) = map_sum id h (forEachHasOneJoin_rec fn sub s1)"
        using "2.IH"(1) [OF True s1] sim by blast
      show ?thesis
      proof (cases "forEachHasOneJoin_rec fn sub s1")
        case (Inl e)
        with True s1 sim [of "RelJoin ty tbl al cols cond sub" s] sub
        show ?thesis by simp
      next
        case (Inr s2)
        have rest: "forEachHasOneJoin_rec fn1 js (h s2) = map_sum id h (forEachHasOneJoin_rec fn js s2)"
          using "2.IH"(2) [OF True s1 Inr] sim by blast
        with True s1 Inr sim [of "RelJoin ty tbl al cols cond sub" s] sub
        show ?thesis by (simp add: id_def)
      qed
    qed
  qed
qed


lemma node_mark_fun:
  "AppendQuery_node NopFormatter = AppendQuery_node (Formatter mark)"
  by (intro ext) (rule node_mark)

lemma appendNodes_mark_fun: "appendNodes NopFormatter = appendNodes (Formatter mark)"
  by (intro ext) (rule appendNodes_mark)

lemma appendHaving_mark_fun: "appendHaving NopFormatter = appendHaving (Formatter mark)"
  by (intro ext) (rule appendHaving_mark)

lemma appendSepNodes_mark_fun: "appendSepNodes NopFormatter = appendSepNodes (Formatter mark)"
  by (intro ext) (rule appendSepNodes_mark)

lemma appendJoins_mark_fun: "appendJoins NopFormatter = appendJoins (Formatter mark)"
  by (intro ext) (rule appendJoins_mark)

lemma FormatQuery_mark_fun: "FormatQuery NopFormatter = FormatQuery (Formatter mark)"
  by (intro ext) (simp add: FormatQuery_def format_args_mark)

lemma appendJoinFields_mark:
  "appendJoinFields j NopFormatter b i fs = appendJoinFields j (Formatter mark) b i fs"
  by (induction fs arbitrary: b i) (simp_all add: appendAlias_def appendAliasColumn_def)

lemma appendHasOneColumns_mark_fun:
  "appendHasOneColumns NopFormatter = appendHasOneColumns (Formatter mark)"
  by (intro ext) (simp add: appendHasOneColumns_def appendNodes_mark appendJoinFields_mark)

lemma hasOneColumnsStep_mark_fun:
  "hasOneColumnsStep NopFormatter = hasOneColumnsStep (Formatter mark)"
  unfolding hasOneColumnsStep_def appendHasOneColumns_mark_fun by (rule refl)

lemma appendColumnNodes_mark:
  "appendColumnNodes NopFormatter tbl b i cols = appendColumnNodes (Formatter mark) tbl b i cols"
proof (induction cols arbitrary: b i)
  case Nil
  show ?case by simp
next
  case (Cons col cols)
  show ?case
    unfolding appendColumnNodes.simps node_mark_fun Cons.IH by (rule refl)
qed

lemma appendOwnColumns_mark:
  "\<not> abbreviates q \<Longrightarrow>
     appendOwnColumns NopFormatter b q = appendOwnColumns (Formatter mark) b q"
  by (auto simp: appendOwnColumns_def abbreviates_def appendColumnNodes_mark IsNopFormatter_def
        split: option.splits)

lemma appendColumns_select_mark:
  "\<not> abbreviates q \<Longrightarrow>
     appendColumns_select NopFormatter b q = appendColumns_select (Formatter mark) b q"
  unfolding appendColumns_select_def hasOneColumnsStep_mark_fun
  by (simp add: appendOwnColumns_mark)

lemma appendTableNodes_mark_fun:
  "appendTableNodes NopFormatter = appendTableNodes (Formatter mark)"
proof (intro ext)
  fix n b ts
  show "appendTableNodes NopFormatter n b ts = appendTableNodes (Formatter mark) n b ts"
  proof (induction ts arbitrary: b)
    case Nil
    show ?case by simp
  next
    case (Cons t ts)
    show ?case
      unfolding appendTableNodes.simps node_mark_fun Cons.IH by (rule refl)
  qed
qed

lemma appendTables_mark_fun: "appendTables NopFormatter = appendTables (Formatter mark)"
  unfolding appendTables_def node_mark_fun appendTableNodes_mark_fun FormatQuery_mark_fun
  by (rule refl)

lemma appendHasOneJoin_mark:
  "appendHasOneJoin j NopFormatter = appendHasOneJoin j (Formatter mark)"
  by (intro ext) (simp add: appendHasOneJoin_def)

lemma appendWhere_mark_fun: "appendWhere NopFormatter = appendWhere (Formatter mark)"
  unfolding appendWhere_def appendSepNodes_mark_fun by (rule refl)

lemma appendClauses_mark_fun: "appendClauses NopFormatter = appendClauses (Formatter mark)"
  unfolding appendClauses_def appendTables_mark_fun appendHasOneJoin_mark appendJoins_mark_fun
    appendWhere_mark_fun appendNodes_mark_fun appendHaving_mark_fun
  by (rule refl)

lemma appendTail_mark_fun: "appendTail NopFormatter = appendTail (Formatter mark)"
  unfolding appendTail_def appendOrder_def appendNodes_mark_fun node_mark_fun
  by (rule refl)

lemma appendDistinct_mark_fun: "appendDistinct NopFormatter = appendDistinct (Formatter mark)"
  unfolding appendDistinct_def appendNodes_mark_fun by (rule refl)

lemma appendSelect_mark:
  assumes "\<not> abbreviates q" and "withText q NopFormatter = withText q (Formatter mark)"
  shows "appendSelect NopFormatter b cnt hasUnion q
           = appendSelect (Formatter mark) b cnt hasUnion q"
proof -
  have c: "\<And>b. appendColumns_select NopFormatter b q = appendColumns_select (Formatter mark) b q"
    using assms(1) by (rule appendColumns_select_mark)
  show ?thesis
    unfolding appendSelect_def appendWith_def assms(2) appendDistinct_mark_fun
      appendClauses_mark_fun appendTail_mark_fun c
    by (rule refl)
qed

lemma appendQuery_mark:
  "(plain q \<longrightarrow> appendQuery NopFormatter b cnt q = appendQuery (Formatter mark) b cnt q)"
  "(plain_unions us \<longrightarrow> appendUnions NopFormatter b us = appendUnions (Formatter mark) b us)"
proof (induction q and us arbitrary: b cnt and b rule: plain_plain_unions.induct)
  case (1 q us)
  then show ?case
    by (simp add: appendSelect_mark split: option.splits sum.splits)
next
  case 2
  show ?case by simp
next
  case (3 expr q us)
  then show ?case
    by (simp split: sum.splits)
qed


lemmas select_defs =
  upd_def NewSelectQuery_def Where_def addWhere_def Limit_def SafeQueryWithSep_def
  table_of_def field_named_def

lemmas render_defs =
  AppendQuery_def appendSelect_def cteCount_def appendWith_def no_with_def and_then_def
  appendDistinct_def appendColumns_select_def appendOwnColumns_def forEachHasOneJoin_def
  TrimSuffix_def appendClauses_def hasTables_def modelHasTableName_def IsZero_def
  appendTables_def appendWhere_def appendTail_def appendOrder_def AppendQuery_node_def
  FormatQuery_def AppendIdent_def Append_def IsNopFormatter_def AppendInt_def
  nat_digits.simps Let_def

lemma t_select_nop:
  "AppendQuery NopFormatter [] t_select = Inr ''SELECT t.id FROM t WHERE (id = ?) LIMIT 10''"
  by (simp add: t_select_def select_defs render_defs)

lemma t_select_lit:
  "AppendQuery (Formatter sample_lit) [] t_select
     = Inr ''SELECT t.id FROM t WHERE (id = 5) LIMIT 10''"
  by (simp add: t_select_def select_defs render_defs sample_lit_def)

lemma plain_t_select: "plain t_select"
  by (simp add: t_select_def select_defs abbreviates_def no_with_def)

lemma wide_nop:
  "AppendQuery NopFormatter [] wide_select
     = Inr ''SELECT w.'11 columns' FROM wide AS w''"
  by (simp add: wide_select_def select_defs render_defs AppendString_def)

lemma wide_lit:
  "AppendQuery (Formatter sample_lit) [] wide_select
     = Inr ''SELECT w.c1, w.c2, w.c3, w.c4, w.c5, w.c6, w.c7, w.c8, w.c9, w.c10, w.c11 FROM wide AS w''"
  by (simp add: wide_select_def select_defs render_defs)

text \<open>
  The test \<^verbatim>\<open>testQueryHook\<close> of the repository expects these two texts.
\<close>

lemma query_hook_test:
  "AppendQuery (Formatter sample_lit) [] hook_select = Inr ''SELECT 1 WHERE ('foo' = 'bar')''
   \<and> AppendQuery NopFormatter [] hook_select = Inr ''SELECT 1 WHERE (? = ?)''"
  by (simp add: hook_select_def select_defs render_defs ColumnExpr_def addColumn_def
        SafeQuery_def sample_lit_def AppendString_def)




subsection \<open>Rendering only appends: the text of a select and of a count\<close>

lemma text_onto_simps [simp]:
  "text_onto b (Inl e) = Inl e"
  "text_onto b (Inr t) = Inr (b @ t)"
  by (simp_all add: text_onto_def)

lemma text_onto_Nil [simp]: "text_onto [] r = r"
  by (cases r) simp_all

lemma text_onto_twice [simp]: "text_onto b (text_onto c r) = text_onto (b @ c) r"
  by (cases r) simp_all

lemma and_then_simps [simp]:
  "and_then (Inl e) f = Inl e"
  "and_then (Inr x) f = f x"
  by (simp_all add: and_then_def)

lemma node_buffer:
  "AppendQuery_node fmter b n = text_onto b (AppendQuery_node fmter [] n)"
  by (simp add: AppendQuery_node_def FormatQuery_def AppendIdent_def split: option.splits)

lemma node_Inr: "\<exists>t. AppendQuery_node fmter [] n = Inr t"
  by (simp add: AppendQuery_node_def split: option.splits)

lemma appendNodes_buffer:
  "appendNodes fmter sep b i fs = text_onto b (appendNodes fmter sep [] i fs)"
proof (induction fs arbitrary: b i)
  case Nil
  show ?case by simp
next
  case (Cons f fs)
  obtain t where t: "AppendQuery_node fmter [] f = Inr t"
    using node_Inr by blast
  define x where "x = (if i > 0 then sep else []) @ t"
  have step: "appendNodes fmter sep c i (f # fs) = appendNodes fmter sep (c @ x) (Suc i) fs" for c
    using t node_buffer [of fmter "if i > 0 then c @ sep else c" f] by (simp add: x_def)
  have "appendNodes fmter sep b i (f # fs) = text_onto (b @ x) (appendNodes fmter sep [] (Suc i) fs)"
    unfolding step by (rule Cons.IH)
  also have "\<dots> = text_onto b (appendNodes fmter sep x (Suc i) fs)"
    using Cons.IH [of x "Suc i"] by simp
  also have "\<dots> = text_onto b (appendNodes fmter sep [] i (f # fs))"
    using step [of "[]"] by simp
  finally show ?case .
qed

lemma appendHaving_buffer:
  "appendHaving fmter b i fs = text_onto b (appendHaving fmter [] i fs)"
proof (induction fs arbitrary: b i)
  case Nil
  show ?case by simp
next
  case (Cons f fs)
  obtain t where t: "AppendQuery_node fmter [] f = Inr t"
    using node_Inr by blast
  define x where "x = (if i > 0 then '' AND '' else []) @ ''('' @ t @ '')''"
  have step: "appendHaving fmter c i (f # fs) = appendHaving fmter (c @ x) (Suc i) fs" for c
    using t node_buffer [of fmter "(if i > 0 then c @ '' AND '' else c) @ ''(''" f]
    by (simp add: x_def)
  have "appendHaving fmter b i (f # fs) = text_onto (b @ x) (appendHaving fmter [] (Suc i) fs)"
    unfolding step by (rule Cons.IH)
  also have "\<dots> = text_onto b (appendHaving fmter x (Suc i) fs)"
    using Cons.IH [of x "Suc i"] by simp
  also have "\<dots> = text_onto b (appendHaving fmter [] i (f # fs))"
    using step [of "[]"] by simp
  finally show ?case .
qed

lemma appendSepNodes_buffer:
  "appendSepNodes fmter b i ws = text_onto b (appendSepNodes fmter [] i ws)"
proof (induction ws arbitrary: b i)
  case Nil
  show ?case by simp
next
  case (Cons w ws)
  obtain t where t: "AppendQuery_node fmter [] w = Inr t"
    using node_Inr by blast
  define x where "x = (if i > 0 then Sep w else []) @ ''('' @ t @ '')''"
  have step: "appendSepNodes fmter c i (w # ws) = appendSepNodes fmter (c @ x) (Suc i) ws" for c
    using t node_buffer [of fmter "(if i > 0 then c @ Sep w else c) @ ''(''" w]
    by (simp add: x_def)
  have "appendSepNodes fmter b i (w # ws) = text_onto (b @ x) (appendSepNodes fmter [] (Suc i) ws)"
    unfolding step by (rule Cons.IH)
  also have "\<dots> = text_onto b (appendSepNodes fmter x (Suc i) ws)"
    using Cons.IH [of x "Suc i"] by simp
  also have "\<dots> = text_onto b (appendSepNodes fmter [] i (w # ws))"
    using step [of "[]"] by simp
  finally show ?case .
qed


lemma seq_text_simps [simp]:
  "seq_text (Inl e) r = Inl e"
  "seq_text (Inr t) r = text_onto t r"
  by (simp_all add: seq_text_def)

lemma seq_text_Nil [simp]: "seq_text r (Inr []) = r"
  by (cases r) simp_all

lemma then_onto:
  "and_then (text_onto c r) (\<lambda>b. text_onto b X) = text_onto c (seq_text r X)"
  by (cases r) simp_all

lemma appendWhere_buffer:
  "appendWhere fmter b q = text_onto b (appendWhere fmter [] q)"
  using appendSepNodes_buffer [of fmter "b @ '' WHERE ''" 0 "q_where q"]
    appendSepNodes_buffer [of fmter "'' WHERE ''" 0 "q_where q"]
  by (simp add: appendWhere_def)

lemma appendWith_buffer:
  "appendWith fmter b q = text_onto b (appendWith fmter [] q)"
  by (simp add: appendWith_def split: sum.splits)

lemma AppendQuery_join_buffer:
  "AppendQuery_join fmter b j = text_onto b (AppendQuery_join fmter [] j)"
proof -
  obtain t where t: "AppendQuery_node fmter [] (join j) = Inr t"
    using node_Inr by blast
  have n: "AppendQuery_node fmter (c @ '' '') (join j) = Inr (c @ '' '' @ t)" for c
    using node_buffer [of fmter "c @ '' ''" "join j"] t by simp
  show ?thesis
    using n [of b] n [of "[]"]
      appendSepNodes_buffer [of fmter "b @ '' '' @ t @ '' ON ''" 0 "on j"]
      appendSepNodes_buffer [of fmter "'' '' @ t @ '' ON ''" 0 "on j"]
    by (simp add: AppendQuery_join_def)
qed

lemma appendJoins_buffer:
  "appendJoins fmter b js = text_onto b (appendJoins fmter [] js)"
proof (induction js arbitrary: b)
  case Nil
  show ?case by simp
next
  case (Cons j js)
  show ?case
  proof (cases "AppendQuery_join fmter [] j")
    case (Inl e)
    then show ?thesis
      using AppendQuery_join_buffer [of fmter b j] by simp
  next
    case (Inr t)
    then have "appendJoins fmter b (j # js) = appendJoins fmter (b @ t) js"
      using AppendQuery_join_buffer [of fmter b j] by simp
    also have "\<dots> = text_onto b (appendJoins fmter t js)"
      using Cons.IH [of "b @ t"] Cons.IH [of t] by simp
    also have "\<dots> = text_onto b (appendJoins fmter [] (j # js))"
      using Inr by simp
    finally show ?thesis .
  qed
qed


lemma text_onto_map_sum: "text_onto b r = map_sum id ((@) b) r"
  by (cases r) simp_all

lemma hasOneJoins_buffer:
  "forEachHasOneJoin (\<lambda>j b. appendHasOneJoin j fmter (b @ '' '')) q b
     = text_onto b (forEachHasOneJoin (\<lambda>j b. appendHasOneJoin j fmter (b @ '' '')) q [])"
proof (cases "tableModel q")
  case None
  then show ?thesis by (simp add: forEachHasOneJoin_def)
next
  case (Some js)
  have "forEachHasOneJoin_rec (\<lambda>j b. appendHasOneJoin j fmter (b @ '' '')) js (b @ [])
          = map_sum id ((@) b)
              (forEachHasOneJoin_rec (\<lambda>j b. appendHasOneJoin j fmter (b @ '' '')) js [])"
    by (rule forEach_sim) (simp add: appendHasOneJoin_def)
  with Some show ?thesis
    by (simp add: forEachHasOneJoin_def text_onto_map_sum)
qed

lemma appendTableNodes_buffer:
  "appendTableNodes fmter (length p + k) (p @ t) ts
     = text_onto p (appendTableNodes fmter k t ts)"
proof (induction ts arbitrary: t)
  case Nil
  show ?case by simp
next
  case (Cons x ts)
  obtain u where u: "AppendQuery_node fmter [] x = Inr u"
    using node_Inr by blast
  have nb: "AppendQuery_node fmter c x = Inr (c @ u)" for c
    using u node_buffer [of fmter c x] by simp
  define y where "y = (if length t > k then '', '' else []) @ u"
  have l: "appendTableNodes fmter (length p + k) (p @ t) (x # ts)
             = appendTableNodes fmter (length p + k) (p @ t @ y) ts"
    by (simp add: y_def nb)
  have r: "appendTableNodes fmter k t (x # ts) = appendTableNodes fmter k (t @ y) ts"
    by (simp add: y_def nb)
  show ?case
    unfolding l r using Cons.IH [of "t @ y"] by simp
qed

lemma appendTables_buffer:
  "appendTables fmter b q = text_onto b (appendTables fmter [] q)"
proof -
  define M where "M =
     (if modelHasTableName q
      then (if \<not> IsZero (modelTable q) then AppendQuery_node fmter [] (modelTable q)
            else (case table q of
                    None \<Rightarrow> Inl ErrNilDeref
                  | Some t \<Rightarrow>
                      Inr (SQLNameForSelects (t) @ []
                           @ (if Alias t \<noteq> SQLNameForSelects t then '' AS '' @ Alias t else []))))
      else Inr [])"
  have fa: "format_args fmter t [] = t" for t
    by (induction t) simp_all
  have m: "(if modelHasTableName q
            then (if \<not> IsZero (modelTable q) then AppendQuery_node fmter (c @ '' FROM '') (modelTable q)
                  else (case table q of
                          None \<Rightarrow> Inl ErrNilDeref
                        | Some t \<Rightarrow>
                            (let b1 = FormatQuery fmter (c @ '' FROM '') (SQLNameForSelects t) []
                             in Inr (if Alias t \<noteq> SQLNameForSelects t
                                     then b1 @ '' AS '' @ Alias t else b1))))
            else Inr (c @ '' FROM '')) = text_onto (c @ '' FROM '') M" for c
    using node_buffer [of fmter "c @ '' FROM ''" "modelTable q"]
    by (simp add: M_def FormatQuery_def fa Let_def split: option.splits)
  have t: "appendTables fmter c q =
      (case M of Inl e \<Rightarrow> Inl e
       | Inr x \<Rightarrow> text_onto (c @ '' FROM '') (appendTableNodes fmter 0 x (tables q)))" for c
  proof (cases M)
    case (Inl e)
    with m [of c] show ?thesis
      by (simp add: appendTables_def Let_def)
  next
    case (Inr x)
    have "appendTableNodes fmter (length (c @ '' FROM '') + 0) ((c @ '' FROM '') @ x) (tables q)
            = text_onto (c @ '' FROM '') (appendTableNodes fmter 0 x (tables q))"
      by (rule appendTableNodes_buffer)
    with Inr m [of c] show ?thesis
      by (simp add: appendTables_def Let_def)
  qed
  show ?thesis
    unfolding t [of b] t [of "[]"] by (cases M) simp_all
qed

lemma appendOrder_buffer:
  "appendOrder fmter b q = text_onto b (appendOrder fmter [] q)"
  using appendNodes_buffer [of fmter "'', ''" "b @ '' ORDER BY ''" 0 "q_order q"]
    appendNodes_buffer [of fmter "'', ''" "'' ORDER BY ''" 0 "q_order q"]
  by (simp add: appendOrder_def)

lemma appendDistinct_buffer:
  "appendDistinct fmter b q = text_onto b (appendDistinct fmter [] q)"
proof (cases "distinctOn q")
  case None
  then show ?thesis by (simp add: appendDistinct_def)
next
  case (Some ds)
  show ?thesis
    using Some appendNodes_buffer [of fmter "'', ''" "b @ ''DISTINCT ON (''" 0 ds]
      appendNodes_buffer [of fmter "'', ''" "''DISTINCT ON (''" 0 ds]
    by (cases "appendNodes fmter '', '' [] 0 ds") (simp_all add: appendDistinct_def)
qed


lemma appendClauses_buffer:
  "appendClauses fmter b q = text_onto b (appendClauses fmter [] q)"
proof -
  define T where "T = (if hasTables q then appendTables fmter [] q else Inr [])"
  define H where "H = forEachHasOneJoin (\<lambda>j b. appendHasOneJoin j fmter (b @ '' '')) q []"
  define J where "J = appendJoins fmter [] (joins q)"
  define W where "W = appendWhere fmter [] q"
  define G where "G = (if q_group q \<noteq> []
                       then appendNodes fmter '', '' '' GROUP BY '' 0 (q_group q) else Inr [])"
  define V where "V = (if having q \<noteq> [] then appendHaving fmter '' HAVING '' 0 (having q)
                       else Inr [])"
  have t: "(if hasTables q then appendTables fmter c q else Inr c) = text_onto c T" for c
    using appendTables_buffer [of fmter c q] by (simp add: T_def)
  have h: "forEachHasOneJoin (\<lambda>j b. appendHasOneJoin j fmter (b @ '' '')) q c = text_onto c H"
    for c
    unfolding H_def by (rule hasOneJoins_buffer)
  have j: "appendJoins fmter c (joins q) = text_onto c J" for c
    unfolding J_def by (rule appendJoins_buffer)
  have w: "appendWhere fmter c q = text_onto c W" for c
    unfolding W_def by (rule appendWhere_buffer)
  have g: "(if q_group q \<noteq> [] then appendNodes fmter '', '' (c @ '' GROUP BY '') 0 (q_group q)
            else Inr c) = text_onto c G" for c
    using appendNodes_buffer [of fmter "'', ''" "c @ '' GROUP BY ''" 0 "q_group q"]
      appendNodes_buffer [of fmter "'', ''" "'' GROUP BY ''" 0 "q_group q"]
    by (simp add: G_def)
  have v: "(if having q \<noteq> [] then appendHaving fmter (c @ '' HAVING '') 0 (having q)
            else Inr c) = text_onto c V" for c
    using appendHaving_buffer [of fmter "c @ '' HAVING ''" 0 "having q"]
      appendHaving_buffer [of fmter "'' HAVING ''" 0 "having q"]
    by (simp add: V_def)
  have all: "appendClauses fmter c q
      = text_onto c (seq_text T (seq_text H (seq_text J (seq_text W (seq_text G V)))))" for c
    unfolding appendClauses_def t h j w g v then_onto by (rule refl)
  show ?thesis
    unfolding all [of b] all [of "[]"] by simp
qed

lemma appendTail_buffer:
  "appendTail fmter b q = text_onto b (appendTail fmter [] q)"
proof -
  define L where "L = (if limit q \<noteq> 0 then AppendInt '' LIMIT '' (sint (limit q)) else [])"
  define F where "F = (if offset q \<noteq> 0 then AppendInt '' OFFSET '' (sint (offset q)) else [])"
  define R where "R = (if \<not> IsZero (selFor q) then AppendQuery_node fmter '' FOR '' (selFor q)
                       else Inr [])"
  have r: "(if \<not> IsZero (selFor q) then AppendQuery_node fmter (c @ '' FOR '') (selFor q)
            else Inr c) = text_onto c R" for c
    using node_buffer [of fmter "c @ '' FOR ''" "selFor q"]
      node_buffer [of fmter "'' FOR ''" "selFor q"]
    by (simp add: R_def)
  have tail: "appendTail fmter c q
      = text_onto c (seq_text (appendOrder fmter [] q) (text_onto (L @ F) R))" for c
  proof (cases "appendOrder fmter [] q")
    case (Inl e)
    with appendOrder_buffer [of fmter c q] show ?thesis
      by (simp add: appendTail_def)
  next
    case (Inr t)
    have o: "appendOrder fmter c q = Inr (c @ t)"
      using Inr appendOrder_buffer [of fmter c q] by simp
    have b2: "(if limit q \<noteq> 0 then AppendInt ((c @ t) @ '' LIMIT '') (sint (limit q)) else c @ t)
                = c @ t @ L"
      by (simp add: L_def AppendInt_def)
    have b3: "(if offset q \<noteq> 0 then AppendInt ((c @ t @ L) @ '' OFFSET '') (sint (offset q))
               else c @ t @ L) = c @ t @ L @ F"
      by (simp add: F_def AppendInt_def)
    have "appendTail fmter c q = text_onto (c @ t @ L @ F) R"
      unfolding appendTail_def o and_then_simps Let_def b2 b3 r by (rule refl)
    with Inr show ?thesis by simp
  qed
  show ?thesis
    unfolding tail [of b] tail [of "[]"] by simp
qed


lemma appendColumnNodes_buffer:
  "appendColumnNodes fmter tbl b i cols = text_onto b (appendColumnNodes fmter tbl [] i cols)"
proof (induction cols arbitrary: b i)
  case Nil
  show ?case by simp
next
  case (Cons col cols)
  obtain u where u: "AppendQuery_node fmter [] col = Inr u"
    using node_Inr by blast
  have nb: "AppendQuery_node fmter c col = Inr (c @ u)" for c
    using u node_buffer [of fmter c col] by simp
  show ?case
  proof (cases "Args col = None \<and> tbl = None")
    case True
    then show ?thesis by (simp add: Let_def)
  next
    case False
    define x where "x = (if i > 0 then '', '' else [])
        @ (case Args col of
             None \<Rightarrow> (case tbl of
                        None \<Rightarrow> []
                      | Some t \<Rightarrow> (case FieldMap t (Query col) of
                                     Some field \<Rightarrow> Alias t @ ''.'' @ SQLName field
                                   | None \<Rightarrow> u))
           | Some _ \<Rightarrow> u)"
    have step: "appendColumnNodes fmter tbl c i (col # cols)
                  = appendColumnNodes fmter tbl (c @ x) (Suc i) cols" for c
      using False by (auto simp: x_def nb Let_def split: option.splits)
    have "appendColumnNodes fmter tbl b i (col # cols)
            = text_onto (b @ x) (appendColumnNodes fmter tbl [] (Suc i) cols)"
      unfolding step by (rule Cons.IH)
    also have "\<dots> = text_onto b (appendColumnNodes fmter tbl x (Suc i) cols)"
      using Cons.IH [of x "Suc i"] by simp
    also have "\<dots> = text_onto b (appendColumnNodes fmter tbl [] i (col # cols))"
      using step [of "[]"] by simp
    finally show ?thesis .
  qed
qed

lemma appendColumns_buffer:
  "appendColumns b tb i fs = b @ appendColumns [] tb i fs"
proof (induction fs arbitrary: b i)
  case Nil
  show ?case by simp
next
  case (Cons f fs)
  define x where "x = (if 0 < i then '', '' else [])
                        @ (if tb \<noteq> [] then tb @ ''.'' else []) @ SQLName f"
  have step: "appendColumns c tb i (f # fs) = appendColumns (c @ x) tb (Suc i) fs" for c
    by (simp add: x_def)
  have "appendColumns b tb i (f # fs) = (b @ x) @ appendColumns [] tb (Suc i) fs"
    unfolding step by (rule Cons.IH)
  also have "\<dots> = b @ appendColumns x tb (Suc i) fs"
    using Cons.IH [of x "Suc i"] by simp
  also have "\<dots> = b @ appendColumns [] tb i (f # fs)"
    using step [of "[]"] by simp
  finally show ?case .
qed

lemma appendOwnColumns_buffer:
  "appendOwnColumns fmter b q = text_onto b (appendOwnColumns fmter [] q)"
proof (cases "columns q = []")
  case False
  then show ?thesis
    using appendColumnNodes_buffer [of fmter "table q" b 0 "columns q"]
    by (simp add: appendOwnColumns_def)
next
  case True
  show ?thesis
  proof (cases "table q")
    case None
    with True show ?thesis by (simp add: appendOwnColumns_def)
  next
    case (Some t)
    with True show ?thesis
      using appendColumns_buffer [of b "Alias t" 0 "Fields t"]
      by (simp add: appendOwnColumns_def AppendString_def)
  qed
qed

lemma appendHasOneColumns_buffer:
  "appendHasOneColumns fmter b j = text_onto b (appendHasOneColumns fmter [] j)"
  using appendNodes_buffer [of fmter "'', ''" b 0 "joinColumns j"]
  by (simp add: appendHasOneColumns_def appendJoinFields_eq)

lemma hasOneColumnsStep_shift:
  "hasOneColumnsStep fmter j (shift p st) = map_sum id (shift p) (hasOneColumnsStep fmter j st)"
proof -
  obtain t k where st: "st = (t, k)" by (cases st)
  define t1 where "t1 = (if length t \<noteq> k then t @ '', '' else t)"
  have b: "appendHasOneColumns fmter (p @ t1) j = text_onto p (appendHasOneColumns fmter t1 j)"
    using appendHasOneColumns_buffer [of fmter "p @ t1" j]
      appendHasOneColumns_buffer [of fmter t1 j] by simp
  show ?thesis
    using b
    by (cases "appendHasOneColumns fmter t1 j")
       (auto simp: st shift_def hasOneColumnsStep_def Let_def t1_def)
qed

lemma TrimSuffix_buffer:
  assumes "c \<noteq> CHR '',''"
  shows "TrimSuffix ((y @ [c, CHR '' '']) @ t) '', '' = (y @ [c, CHR '' '']) @ TrimSuffix t '', ''"
proof (cases "length t \<ge> 2")
  case True
  define p where "p = y @ [c, CHR '' '']"
  define n where "n = length t - 2"
  have len: "length (p @ t) - 2 = length p + n"
    using True by (simp add: n_def)
  have d: "drop (length p + n) (p @ t) = drop n t"
    by simp
  have k: "take (length p + n) (p @ t) = p @ take n t"
    by simp
  have l2: "length '', '' = (2::nat)"
    by simp
  have "TrimSuffix (p @ t) '', '' = p @ TrimSuffix t '', ''"
    unfolding TrimSuffix_def l2 len d k n_def [symmetric] using True by simp
  then show ?thesis by (simp add: p_def)
next
  case False
  then consider "t = []" | x where "t = [x]"
    by (cases t rule: list.exhaust; cases "tl t") auto
  then show ?thesis
    using assms by cases (simp_all add: TrimSuffix_def)
qed


lemma forEachHasOneJoin_shift:
  "forEachHasOneJoin (hasOneColumnsStep fmter) q (shift p st)
     = map_sum id (shift p) (forEachHasOneJoin (hasOneColumnsStep fmter) q st)"
proof (cases "tableModel q")
  case None
  then show ?thesis by (simp add: forEachHasOneJoin_def)
next
  case (Some js)
  have "forEachHasOneJoin_rec (hasOneColumnsStep fmter) js (shift p st)
          = map_sum id (shift p) (forEachHasOneJoin_rec (hasOneColumnsStep fmter) js st)"
    by (rule forEach_sim) (rule hasOneColumnsStep_shift)
  with Some show ?thesis by (simp add: forEachHasOneJoin_def)
qed

lemma appendColumns_select_buffer:
  assumes "c \<noteq> CHR '',''"
  shows "appendColumns_select fmter (y @ [c, CHR '' '']) q
           = text_onto (y @ [c, CHR '' '']) (appendColumns_select fmter [] q)"
proof -
  define p where "p = y @ [c, CHR '' '']"
  have trim: "TrimSuffix (p @ t) '', '' = p @ TrimSuffix t '', ''" for t
    unfolding p_def using assms by (rule TrimSuffix_buffer)
  show ?thesis
  proof (cases "appendOwnColumns fmter [] q")
    case (Inl e)
    then show ?thesis
      using appendOwnColumns_buffer [of fmter p q]
      by (simp add: appendColumns_select_def p_def)
  next
    case (Inr ot)
    then have own: "appendOwnColumns fmter p q = Inr (p @ ot)"
      using appendOwnColumns_buffer [of fmter p q] by simp
    have st: "(p @ ot, length p) = shift p (ot, 0)"
      by (simp add: shift_def)
    have loop: "forEachHasOneJoin (hasOneColumnsStep fmter) q (p @ ot, length p)
                  = map_sum id (shift p) (forEachHasOneJoin (hasOneColumnsStep fmter) q (ot, 0))"
      unfolding st by (rule forEachHasOneJoin_shift)
    have "appendColumns_select fmter p q = text_onto p (appendColumns_select fmter [] q)"
    proof (cases "forEachHasOneJoin (hasOneColumnsStep fmter) q (ot, 0)")
      case (Inl e)
      with Inr own loop show ?thesis
        by (simp add: appendColumns_select_def)
    next
      case r: (Inr st1)
      with Inr own loop show ?thesis
        by (simp add: appendColumns_select_def shift_def trim)
    qed
    then show ?thesis by (simp add: p_def)
  qed
qed

lemma distinct_shape:
  assumes "appendDistinct fmter [] q = Inr d"
  shows "\<exists>y c. ''SELECT '' @ d = y @ [c, CHR '' ''] \<and> c \<noteq> CHR '',''"
proof (cases "distinctOn q")
  case None
  with assms have "d = []" by (simp add: appendDistinct_def)
  then have "''SELECT '' @ d = ''SELEC'' @ [CHR ''T'', CHR '' ''] \<and> CHR ''T'' \<noteq> CHR '',''"
    by simp
  then show ?thesis by blast
next
  case (Some ds)
  show ?thesis
  proof (cases "ds = []")
    case True
    with Some assms have "d = ''DISTINCT ''" by (simp add: appendDistinct_def)
    then have "''SELECT '' @ d = ''SELECT DISTINC'' @ [CHR ''T'', CHR '' '']
                 \<and> CHR ''T'' \<noteq> CHR '',''"
      by simp
    then show ?thesis by blast
  next
    case False
    obtain t where t: "appendNodes fmter '', '' ''DISTINCT ON ('' 0 ds = Inr t"
      using Some False assms by (cases "appendNodes fmter '', '' ''DISTINCT ON ('' 0 ds")
        (simp_all add: appendDistinct_def)
    with Some False assms have "d = t @ '') ''" by (simp add: appendDistinct_def)
    then have "''SELECT '' @ d = (''SELECT '' @ t) @ [CHR '')'', CHR '' '']
                 \<and> CHR '')'' \<noteq> CHR '',''"
      by simp
    then show ?thesis by blast
  qed
qed


lemma appendSelect_text:
  "appendSelect fmter b cnt hu q =
     text_onto (b @ (if cteCount cnt q then ''WITH _count_wrapper AS ('' else [])
                  @ (if hu then ''('' else []))
       (seq_text (appendWith fmter [] q)
          (text_onto ''SELECT ''
             (seq_text (appendDistinct fmter [] q)
                (seq_text (if cnt \<and> \<not> cteCount cnt q then Inr ''count(*)''
                           else appendColumns_select fmter [] q)
                   (seq_text (appendClauses fmter [] q)
                      (if \<not> cnt then appendTail fmter [] q else Inr []))))))"
proof -
  define b1 where "b1 = b @ (if cteCount cnt q then ''WITH _count_wrapper AS ('' else [])
                          @ (if hu then ''('' else [])"
  define C where "C = (if cnt \<and> \<not> cteCount cnt q then Inr ''count(*)''
                       else appendColumns_select fmter [] q)"
  define T where "T = (if \<not> cnt then appendTail fmter [] q else Inr [])"
  have start: "appendSelect fmter b cnt hu q =
      and_then (appendWith fmter b1 q) (\<lambda>b2.
      and_then (appendDistinct fmter (b2 @ ''SELECT '') q) (\<lambda>b3.
      and_then (if cnt \<and> \<not> cteCount cnt q then Inr (b3 @ ''count(*)'')
                else appendColumns_select fmter b3 q) (\<lambda>b4.
      and_then (appendClauses fmter b4 q) (\<lambda>b5.
      (if \<not> cnt then appendTail fmter b5 q else Inr b5)))))"
    by (simp add: appendSelect_def b1_def Let_def)
  have tail: "(if \<not> cnt then appendTail fmter c q else Inr c) = text_onto c T" for c
    using appendTail_buffer [of fmter c q] by (simp add: T_def)
  define CL where "CL = appendClauses fmter [] q"
  have cl: "appendClauses fmter c q = text_onto c CL" for c
    unfolding CL_def by (rule appendClauses_buffer)
  have goal: "appendSelect fmter b cnt hu q =
      text_onto b1 (seq_text (appendWith fmter [] q) (text_onto ''SELECT ''
        (seq_text (appendDistinct fmter [] q) (seq_text C (seq_text CL T)))))"
  proof (cases "appendWith fmter [] q")
    case (Inl e)
    then show ?thesis
      using appendWith_buffer [of fmter b1 q] by (simp add: start)
  next
    case w: (Inr w)
    then have w1: "appendWith fmter b1 q = Inr (b1 @ w)"
      using appendWith_buffer [of fmter b1 q] by simp
    show ?thesis
    proof (cases "appendDistinct fmter [] q")
      case (Inl e)
      then show ?thesis
        using w w1 appendDistinct_buffer [of fmter "(b1 @ w) @ ''SELECT ''" q]
        by (simp add: start)
    next
      case d: (Inr d)
      then have d1: "appendDistinct fmter ((b1 @ w) @ ''SELECT '') q
                       = Inr ((b1 @ w) @ ''SELECT '' @ d)"
        using appendDistinct_buffer [of fmter "(b1 @ w) @ ''SELECT ''" q] by simp
      obtain y c where yc: "''SELECT '' @ d = y @ [c, CHR '' '']" "c \<noteq> CHR '',''"
        using distinct_shape [OF d] by blast
      have b3: "(b1 @ w) @ ''SELECT '' @ d = ((b1 @ w) @ y) @ [c, CHR '' '']"
        using yc(1) by simp
      have cols: "(if cnt \<and> \<not> cteCount cnt q then Inr (((b1 @ w) @ ''SELECT '' @ d) @ ''count(*)'')
                   else appendColumns_select fmter ((b1 @ w) @ ''SELECT '' @ d) q)
                    = text_onto ((b1 @ w) @ ''SELECT '' @ d) C"
      proof (cases "cnt \<and> \<not> cteCount cnt q")
        case True
        show ?thesis
          unfolding C_def if_P [OF True] by simp
      next
        case False
        have "appendColumns_select fmter ((b1 @ w) @ ''SELECT '' @ d) q
                = text_onto ((b1 @ w) @ ''SELECT '' @ d) (appendColumns_select fmter [] q)"
          unfolding b3 using yc(2) by (rule appendColumns_select_buffer)
        then show ?thesis
          unfolding C_def if_not_P [OF False] .
      qed
      show ?thesis
        unfolding start w1 and_then_simps d1 cols cl tail then_onto
        using w d by simp
    qed
  qed
  then show ?thesis
    by (simp add: b1_def C_def T_def CL_def)
qed

lemma appendSelect_buffer:
  "appendSelect fmter b cnt hu q = text_onto b (appendSelect fmter [] cnt hu q)"
  unfolding appendSelect_text [of fmter b] appendSelect_text [of fmter "[]"] by simp


lemma appendQuery_buffer_both:
  "appendQuery fmter b cnt q = text_onto b (appendQuery fmter [] cnt q)"
  "appendUnions fmter b us = text_onto b (appendUnions fmter [] us)"
proof (induction q and us arbitrary: b cnt and b rule: plain_plain_unions.induct)
  case (1 q us)
  show ?case
  proof (cases "err q")
    case (Some e)
    then show ?thesis by simp
  next
    case None
    show ?thesis
    proof (cases "appendSelect fmter [] cnt (us \<noteq> []) q")
      case (Inl e)
      with None appendSelect_buffer [of fmter b cnt "us \<noteq> []" q] show ?thesis
        by simp
    next
      case (Inr t)
      then have sb: "appendSelect fmter b cnt (us \<noteq> []) q = Inr (b @ t)"
        using appendSelect_buffer [of fmter b cnt "us \<noteq> []" q] by simp
      have u: "appendUnions fmter ((b @ t) @ '')'') us
                 = text_onto b (appendUnions fmter (t @ '')'') us)"
        using "1.IH" [of "(b @ t) @ '')''"] "1.IH" [of "t @ '')''"] by simp
      show ?thesis
      proof (cases "us = []")
        case True
        with None Inr sb show ?thesis by simp
      next
        case False
        with None Inr sb u show ?thesis
          by (cases "appendUnions fmter (t @ '')'') us") simp_all
      qed
    qed
  qed
next
  case 2
  show ?case by simp
next
  case (3 expr q us)
  show ?case
  proof (cases "appendQuery fmter [] False q")
    case (Inl e)
    then show ?thesis
      using "3.IH"(1) [of "b @ expr @ ''(''" False] "3.IH"(1) [of "expr @ ''(''" False]
      by simp
  next
    case (Inr t)
    then have l: "appendQuery fmter (b @ expr @ ''('') False q = Inr (b @ expr @ ''('' @ t)"
      and r: "appendQuery fmter (expr @ ''('') False q = Inr (expr @ ''('' @ t)"
      using "3.IH"(1) [of "b @ expr @ ''(''" False] "3.IH"(1) [of "expr @ ''(''" False]
      by simp_all
    show ?thesis
      using l r "3.IH"(2) [of "(b @ expr @ ''('' @ t) @ '')''"]
        "3.IH"(2) [of "(expr @ ''('' @ t) @ '')''"]
      by simp
  qed
qed

lemma appendTail_stripped:
  "appendTail fmter b (q\<lparr>q_order := [], limit := 0, offset := 0,
                          selFor := \<lparr>Query = [], Args = None\<rparr>\<rparr>) = Inr b"
  by (simp add: appendTail_def appendOrder_def IsZero_def)


lemma stripped_parts:
  "appendWith fmter b (q\<lparr>q_order := [], limit := 0, offset := 0, selFor := z\<rparr>)
     = appendWith fmter b q"
  "appendDistinct fmter b (q\<lparr>q_order := [], limit := 0, offset := 0, selFor := z\<rparr>)
     = appendDistinct fmter b q"
  "appendColumns_select fmter b (q\<lparr>q_order := [], limit := 0, offset := 0, selFor := z\<rparr>)
     = appendColumns_select fmter b q"
  "appendClauses fmter b (q\<lparr>q_order := [], limit := 0, offset := 0, selFor := z\<rparr>)
     = appendClauses fmter b q"
  "cteCount cnt (q\<lparr>q_order := [], limit := 0, offset := 0, selFor := z\<rparr>) = cteCount cnt q"
  by (simp_all add: appendWith_def appendDistinct_def appendColumns_select_def
        appendOwnColumns_def forEachHasOneJoin_def appendClauses_def hasTables_def
        modelHasTableName_def appendTables_def appendWhere_def cteCount_def
        cong: if_cong option.case_cong)

lemma appendSelect_cte:
  assumes "cteCount True q"
  shows "appendSelect fmter b True hu q
           = appendSelect fmter (b @ ''WITH _count_wrapper AS ('') False hu
               (q\<lparr>q_order := [], limit := 0, offset := 0,
                  selFor := \<lparr>Query = [], Args = None\<rparr>\<rparr>)"
proof -
  have f: "\<not> cteCount False x" for x
    by (simp add: cteCount_def)
  show ?thesis
    unfolding appendSelect_text [of fmter b True] appendSelect_text [of fmter _ False]
    using assms by (simp add: stripped_parts f appendTail_stripped)
qed

lemma appendQuery_cte:
  assumes "cteCount True (sel q)"
  shows "appendQuery fmter b True q
           = and_then (appendQuery fmter (b @ ''WITH _count_wrapper AS ('') False (strip_tail q))
               (\<lambda>t. Inr (t @ '') SELECT count(*) FROM _count_wrapper''))"
proof (cases q)
  case (SelectQuery s us)
  have f: "\<not> cteCount False x" for x
    by (simp add: cteCount_def)
  have st: "strip_tail q = SelectQuery
      (s\<lparr>q_order := [], limit := 0, offset := 0, selFor := \<lparr>Query = [], Args = None\<rparr>\<rparr>) us"
    using SelectQuery by (simp add: strip_tail_def upd_def)
  from assms SelectQuery have c: "cteCount True s"
    by simp
  show ?thesis
    unfolding SelectQuery st [unfolded SelectQuery]
    using c
    by (simp add: appendSelect_cte [OF c] f split: option.splits sum.splits)
qed


lemma seq_text_assoc: "seq_text (seq_text a b) c = seq_text a (seq_text b c)"
  by (cases a; cases b; cases c) simp_all

lemma seq_text_onto: "seq_text (text_onto x r) c = text_onto x (seq_text r c)"
  by (cases r; cases c) simp_all

lemma appendQuery_text:
  "appendQuery fmter b cnt (SelectQuery s us) =
     (case err s of
        Some e \<Rightarrow> Inl e
      | None \<Rightarrow>
          text_onto b
            (seq_text (appendSelect fmter [] cnt (us \<noteq> []) s)
               (seq_text (union_text fmter us)
                  (Inr (if cteCount cnt s then '') SELECT count(*) FROM _count_wrapper''
                        else [])))))"
proof (cases "err s")
  case (Some e)
  then show ?thesis by simp
next
  case None
  show ?thesis
  proof (cases "appendSelect fmter [] cnt (us \<noteq> []) s")
    case (Inl e)
    with None appendSelect_buffer [of fmter b cnt "us \<noteq> []" s] show ?thesis
      by simp
  next
    case (Inr t)
    then have sb: "appendSelect fmter b cnt (us \<noteq> []) s = Inr (b @ t)"
      using appendSelect_buffer [of fmter b cnt "us \<noteq> []" s] by simp
    have u: "appendUnions fmter ((b @ t) @ '')'') us
               = text_onto (b @ t) (appendUnions fmter '')'' us)"
      using appendQuery_buffer_both(2) [of fmter "(b @ t) @ '')''" us]
        appendQuery_buffer_both(2) [of fmter "'')''" us] by simp
    show ?thesis
    proof (cases "us = []")
      case True
      with None Inr sb show ?thesis by (simp add: union_text_def)
    next
      case False
      with None Inr sb u show ?thesis
        by (cases "appendUnions fmter '')'' us") (simp_all add: union_text_def)
    qed
  qed
qed

lemma count_text:
  assumes "\<not> cteCount True (sel q)"
  shows "appendQuery fmter b True q =
     (case err (sel q) of
        Some e \<Rightarrow> Inl e
      | None \<Rightarrow>
          text_onto (b @ paren (union q))
            (select_parts fmter q (Inr ''count(*)'') (Inr [])))"
proof (cases q)
  case (SelectQuery s us)
  with assms have n: "\<not> cteCount True s"
    by simp
  then have d: "appendDistinct fmter [] s = Inr []"
    by (simp add: cteCount_def appendDistinct_def)
  show ?thesis
    unfolding SelectQuery appendQuery_text appendSelect_text
    using n
    by (simp add: select_parts_def paren_def d seq_text_assoc seq_text_onto
          split: option.splits)
qed

lemma select_text:
  "AppendQuery fmter b q =
     (case err (sel q) of
        Some e \<Rightarrow> Inl e
      | None \<Rightarrow>
          text_onto (b @ paren (union q))
            (select_parts fmter q (appendColumns_select fmter [] (sel q))
               (appendTail fmter [] (sel q))))"
proof (cases q)
  case (SelectQuery s us)
  have f: "\<not> cteCount False x" for x
    by (simp add: cteCount_def)
  show ?thesis
    unfolding SelectQuery AppendQuery_def appendQuery_text appendSelect_text
    by (simp add: select_parts_def paren_def f seq_text_assoc seq_text_onto
          split: option.splits)
qed

lemma cte_text:
  assumes "cteCount True (sel q)"
  shows "appendQuery fmter b True q =
     text_onto (b @ ''WITH _count_wrapper AS ('')
       (seq_text (AppendQuery fmter [] (strip_tail q))
          (Inr '') SELECT count(*) FROM _count_wrapper''))"
proof -
  have "appendQuery fmter (b @ ''WITH _count_wrapper AS ('') False (strip_tail q)
          = text_onto (b @ ''WITH _count_wrapper AS ('') (AppendQuery fmter [] (strip_tail q))"
    unfolding AppendQuery_def by (rule appendQuery_buffer_both(1))
  then show ?thesis
    unfolding appendQuery_cte [OF assms]
    by (cases "AppendQuery fmter [] (strip_tail q)") simp_all
qed

text \<open>
  C3, amended. For a query with no GROUP BY and no DISTINCT, the count rendering and the select
  rendering are put together from the same parts: the same WITH clauses, the same clauses from
  FROM to HAVING (so every WHERE and JOIN clause is kept), the same union members; the count
  has \<open>count(*)\<close> where the select has its column list, and nothing where the select has
  ORDER BY, LIMIT, OFFSET and FOR. For a query with GROUP BY or DISTINCT, the count rendering
  is the header \<open>WITH _count_wrapper AS (\<close>, then the select rendering of the query without
  its ORDER BY, LIMIT, OFFSET and FOR clauses, then \<open>) SELECT count(*) FROM _count_wrapper\<close>.
\<close>

theorem C3_count_rendering:
  "(\<not> cteCount True (sel q) \<longrightarrow>
      appendQuery fmter b True q =
        (case err (sel q) of
           Some e \<Rightarrow> Inl e
         | None \<Rightarrow>
             text_onto (b @ paren (union q))
               (select_parts fmter q (Inr ''count(*)'') (Inr []))))
   \<and> AppendQuery fmter b q =
        (case err (sel q) of
           Some e \<Rightarrow> Inl e
         | None \<Rightarrow>
             text_onto (b @ paren (union q))
               (select_parts fmter q (appendColumns_select fmter [] (sel q))
                  (appendTail fmter [] (sel q))))
   \<and> (cteCount True (sel q) \<longrightarrow>
      appendQuery fmter b True q =
        text_onto (b @ ''WITH _count_wrapper AS ('')
          (seq_text (AppendQuery fmter [] (strip_tail q))
             (Inr '') SELECT count(*) FROM _count_wrapper'')))"
  using count_text [of q fmter b] select_text [of fmter b q] cte_text [of q fmter b]
  by blast

lemma t_select_count:
  "appendQuery (Formatter sample_lit) [] True t_select
     = Inr ''SELECT count(*) FROM t WHERE (id = 5)''"
  by (simp add: t_select_def select_defs render_defs sample_lit_def)

lemma grouped_count:
  "appendQuery NopFormatter [] True grouped_select
     = Inr ''WITH _count_wrapper AS (SELECT * GROUP BY a) SELECT count(*) FROM _count_wrapper''"
  by (simp add: grouped_select_def select_defs render_defs Group_def UnsafeIdent_def)

lemma grouped_text:
  "AppendQuery NopFormatter [] grouped_select = Inr ''SELECT * GROUP BY a LIMIT 10''"
  by (simp add: grouped_select_def select_defs render_defs Group_def UnsafeIdent_def)

lemma grouped_stripped:
  "AppendQuery NopFormatter [] (strip_tail grouped_select) = Inr ''SELECT * GROUP BY a''"
  by (simp add: grouped_select_def strip_tail_def select_defs render_defs Group_def
        UnsafeIdent_def)

lemma cte_cases:
  "\<not> cteCount True (sel t_select)" "cteCount True (sel grouped_select)"
  by (simp_all add: t_select_def grouped_select_def select_defs cteCount_def Group_def)

text \<open>
  C3, as stated, fails in its second half: the common table expression does not hold the full
  original query. For \<^verbatim>\<open>Group("a")\<close> with \<^verbatim>\<open>Limit(10)\<close> the query is
  \<open>SELECT * GROUP BY a LIMIT 10\<close>, and the count wraps \<open>SELECT * GROUP BY a\<close>, without the
  limit.
\<close>

theorem C3_cte_drops_limit_counterexample:
  "AppendQuery NopFormatter [] grouped_select = Inr ''SELECT * GROUP BY a LIMIT 10''
   \<and> appendQuery NopFormatter [] True grouped_select
       = Inr ''WITH _count_wrapper AS (SELECT * GROUP BY a) SELECT count(*) FROM _count_wrapper''"
  by (simp add: grouped_text grouped_count)

theorem C3_count_rendering_witness:
  "\<not> cteCount True (sel t_select)
   \<and> appendQuery (Formatter sample_lit) [] True t_select
       = Inr ''SELECT count(*) FROM t WHERE (id = 5)''
   \<and> AppendQuery (Formatter sample_lit) [] t_select
       = Inr ''SELECT t.id FROM t WHERE (id = 5) LIMIT 10''
   \<and> cteCount True (sel grouped_select)
   \<and> appendQuery NopFormatter [] True grouped_select
       = Inr ''WITH _count_wrapper AS (SELECT * GROUP BY a) SELECT count(*) FROM _count_wrapper''"
proof -
  have a: "appendQuery NopFormatter [] True grouped_select
       = Inr ''WITH _count_wrapper AS (SELECT * GROUP BY a) SELECT count(*) FROM _count_wrapper''"
    using C3_count_rendering [of grouped_select NopFormatter "[]"] cte_cases(2) grouped_stripped
    by simp
  have b: "appendQuery (Formatter sample_lit) [] True t_select
       = Inr ''SELECT count(*) FROM t WHERE (id = 5)''"
    using C3_count_rendering [of t_select "Formatter sample_lit" "[]"] cte_cases(1)
    by (simp add: t_select_count)
  show ?thesis
    using a b cte_cases t_select_lit by simp
qed

subsection \<open>What rendering changes\<close>



end
